theory Spec2Isabelle
  imports Complex_Main "HOL-Library.Multiset" "HOL-Library.Word"
begin

unbundle bit_operations_syntax

section \<open>float64 values\<close>

text \<open>
  Go's \<^verbatim>\<open>float64\<close>. A finite value is represented by the real number it denotes; the
  two infinities and not-a-number are separate values, because the program divides
  without testing the divisor and compares without testing for NaN. Rounding, overflow
  to infinity and the sign of zero are not represented: arithmetic on finite values is
  exact, and a zero divisor counts as \<^verbatim>\<open>+0\<close>.
\<close>

datatype float64 = Fin real | PInf | NInf | NaN

fun fneg :: "float64 \<Rightarrow> float64" where
  "fneg (Fin x) = Fin (- x)"
| "fneg PInf = NInf"
| "fneg NInf = PInf"
| "fneg NaN = NaN"

fun fadd :: "float64 \<Rightarrow> float64 \<Rightarrow> float64" where
  "fadd (Fin x) (Fin y) = Fin (x + y)"
| "fadd (Fin x) PInf = PInf"
| "fadd (Fin x) NInf = NInf"
| "fadd PInf (Fin y) = PInf"
| "fadd PInf PInf = PInf"
| "fadd PInf NInf = NaN"
| "fadd NInf (Fin y) = NInf"
| "fadd NInf PInf = NaN"
| "fadd NInf NInf = NInf"
| "fadd NaN b = NaN"
| "fadd a NaN = NaN"

definition fsub :: "float64 \<Rightarrow> float64 \<Rightarrow> float64" where
  "fsub a b = fadd a (fneg b)"

fun fmul :: "float64 \<Rightarrow> float64 \<Rightarrow> float64" where
  "fmul (Fin x) (Fin y) = Fin (x * y)"
| "fmul (Fin x) PInf = (if 0 < x then PInf else if x < 0 then NInf else NaN)"
| "fmul (Fin x) NInf = (if 0 < x then NInf else if x < 0 then PInf else NaN)"
| "fmul PInf (Fin y) = (if 0 < y then PInf else if y < 0 then NInf else NaN)"
| "fmul NInf (Fin y) = (if 0 < y then NInf else if y < 0 then PInf else NaN)"
| "fmul PInf PInf = PInf"
| "fmul PInf NInf = NInf"
| "fmul NInf PInf = NInf"
| "fmul NInf NInf = PInf"
| "fmul NaN b = NaN"
| "fmul a NaN = NaN"

fun fdiv :: "float64 \<Rightarrow> float64 \<Rightarrow> float64" where
  "fdiv (Fin x) (Fin y) =
     (if y \<noteq> 0 then Fin (x / y)
      else if 0 < x then PInf else if x < 0 then NInf else NaN)"
| "fdiv (Fin x) PInf = Fin 0"
| "fdiv (Fin x) NInf = Fin 0"
| "fdiv PInf (Fin y) = (if 0 \<le> y then PInf else NInf)"
| "fdiv NInf (Fin y) = (if 0 \<le> y then NInf else PInf)"
| "fdiv PInf PInf = NaN"
| "fdiv PInf NInf = NaN"
| "fdiv NInf PInf = NaN"
| "fdiv NInf NInf = NaN"
| "fdiv NaN b = NaN"
| "fdiv a NaN = NaN"

text \<open>The comparisons \<^verbatim>\<open>a > b\<close> and \<^verbatim>\<open>a == b\<close>: false whenever an operand is NaN.\<close>

fun fgt :: "float64 \<Rightarrow> float64 \<Rightarrow> bool" where
  "fgt (Fin x) (Fin y) = (y < x)"
| "fgt PInf (Fin y) = True"
| "fgt PInf NInf = True"
| "fgt (Fin x) NInf = True"
| "fgt a b = False"

fun feq :: "float64 \<Rightarrow> float64 \<Rightarrow> bool" where
  "feq (Fin x) (Fin y) = (x = y)"
| "feq PInf PInf = True"
| "feq NInf NInf = True"
| "feq a b = False"

fun is_finite :: "float64 \<Rightarrow> bool" where
  "is_finite (Fin x) = True"
| "is_finite a = False"

fun the_real :: "float64 \<Rightarrow> real" where
  "the_real (Fin x) = x"
| "the_real a = 0"

section \<open>Configuration, status and errors\<close>

text \<open>
  \<^verbatim>\<open>Config\<close> of main.go, without the embedded \<^verbatim>\<open>sensu.PluginConfig\<close> (name and
  keyspace, which only label the output).
\<close>

record Config =
  Critical :: float64
  Warning :: float64
  Interval :: int

text \<open>The three exit states of the plugin SDK that the program returns.\<close>

datatype CheckState = CheckStateOK | CheckStateWarning | CheckStateCritical

text \<open>
  One constructor for each \<^verbatim>\<open>fmt.Errorf\<close> of the program, carrying the error it
  wraps. \<open>LibError\<close> is an error value handed back by a library call, known by its
  message only.
\<close>

datatype error =
    LibError string
  | CriticalRequired
  | WarningRequired
  | WarningGreaterThanCritical
  | IntervalRequired
  | CPUTimingsError error
  | DurationError error
  | TopProcessesError error
  | UnsupportedOS string
  | CommandError error

definition checkArgs :: "Config \<Rightarrow> CheckState \<times> error option" where
  "checkArgs plugin =
     (if feq (Critical plugin) (Fin 0) then (CheckStateWarning, Some CriticalRequired)
      else if feq (Warning plugin) (Fin 0) then (CheckStateWarning, Some WarningRequired)
      else if fgt (Warning plugin) (Critical plugin)
        then (CheckStateWarning, Some WarningGreaterThanCritical)
      else if Interval plugin = 0 then (CheckStateWarning, Some IntervalRequired)
      else (CheckStateOK, None))"

section \<open>The CPU delta sampler and the check\<close>

text \<open>
  The ten counters of gopsutil's \<^verbatim>\<open>cpu.TimesStat\<close> that the program reads (its label
  field is never read).
\<close>

record TimesStat =
  User :: float64
  System :: float64
  Idle :: float64
  Nice :: float64
  Iowait :: float64
  Irq :: float64
  Softirq :: float64
  Steal :: float64
  Guest :: float64
  GuestNice :: float64

record ProcessInfo =
  PID :: int
  CPU :: float64
  Name :: string

text \<open>
  \<^verbatim>\<open>startTotal\<close> and \<^verbatim>\<open>endTotal\<close>: the counters added from left to right in the order
  the source writes them.
\<close>

definition total :: "TimesStat \<Rightarrow> float64" where
  "total t =
     fadd (fadd (fadd (fadd (fadd (fadd (fadd (fadd (fadd
       (User t) (System t)) (Idle t)) (Nice t)) (Iowait t)) (Irq t)) (Softirq t))
       (Steal t)) (Guest t)) (GuestNice t)"

text \<open>\<^verbatim>\<open>((end - start) / diff) * 100\<close>, the expression of every percentage.\<close>

definition pct :: "float64 \<Rightarrow> float64 \<Rightarrow> float64 \<Rightarrow> float64" where
  "pct e s diff = fmul (fdiv (fsub e s) diff) (Fin 100)"

text \<open>
  What \<^verbatim>\<open>executeCheck\<close> prints: the status word, the used percentage, the ten
  performance values in the order of \<^verbatim>\<open>perfData\<close>, and the process lines. The
  \<^verbatim>\<open>%.2f\<close> rendering is not modelled; the record holds the values that are rendered.
\<close>

record Report =
  status_word :: string
  usedPct :: float64
  cpu_idle :: float64
  cpu_system :: float64
  cpu_user :: float64
  cpu_nice :: float64
  cpu_iowait :: float64
  cpu_irq :: float64
  cpu_softirq :: float64
  cpu_steal :: float64
  cpu_guest :: float64
  cpu_guestnice :: float64
  processInfo :: "ProcessInfo list"

text \<open>
  A Go call either returns or panics; the only panic of this program is the index
  \<^verbatim>\<open>[0]\<close> into the slice that \<^verbatim>\<open>cpu.Times\<close> returned.
\<close>

datatype 'a outcome = Returns 'a | Panics

text \<open>
  \<^verbatim>\<open>time.ParseDuration(fmt.Sprintf("%ds", n))\<close>: the standard library accepts a signed
  decimal count of seconds as long as it fits the 64-bit count of nanoseconds, that is
  up to 9223372036 seconds in magnitude. The result is the duration in nanoseconds.
\<close>

definition ParseDuration_seconds :: "int \<Rightarrow> error + int" where
  "ParseDuration_seconds n =
     (if \<bar>n\<bar> \<le> 9223372036 then Inr (n * 1000000000)
      else Inl (LibError ''time: invalid duration''))"

text \<open>
  \<^verbatim>\<open>executeCheck\<close>. The environment is explicit: \<open>times1\<close> and \<open>times2\<close> are what the two
  calls of \<^verbatim>\<open>cpu.Times(false)\<close> return (an error, or a slice), and \<open>listing\<close> is the
  pair that \<^verbatim>\<open>getTopCPUProcesses()\<close> returns. The sleep between the snapshots has no effect on
  the result. The value is the returned pair together with the printed report, if any.
\<close>

definition executeCheck ::
  "Config \<Rightarrow> error + TimesStat list \<Rightarrow> error + TimesStat list
     \<Rightarrow> ProcessInfo list \<times> error option
     \<Rightarrow> (CheckState \<times> error option \<times> Report option) outcome" where
  "executeCheck plugin times1 times2 listing =
     (case times1 of
        Inl e \<Rightarrow> Returns (CheckStateCritical, Some (CPUTimingsError e), None)
      | Inr [] \<Rightarrow> Panics
      | Inr (start0 # _) \<Rightarrow>
     (let startTotal = total start0 in
      case ParseDuration_seconds (Interval plugin) of
        Inl e \<Rightarrow> Returns (CheckStateCritical, Some (DurationError e), None)
      | Inr duration \<Rightarrow>
     (case times2 of
        Inl e \<Rightarrow> Returns (CheckStateCritical, Some (CPUTimingsError e), None)
      | Inr [] \<Rightarrow> Panics
      | Inr (end0 # _) \<Rightarrow>
     (let endTotal = total end0;
          diff = fsub endTotal startTotal;
          idlePct = pct (Idle end0) (Idle start0) diff;
          usedPct = fsub (Fin 100) idlePct;
          userPct = pct (User end0) (User start0) diff;
          sysPct = pct (System end0) (System start0) diff;
          nicePct = pct (Nice end0) (Nice start0) diff;
          iowaitPct = pct (Iowait end0) (Iowait start0) diff;
          irqPct = pct (Irq end0) (Irq start0) diff;
          softirqPct = pct (Softirq end0) (Softirq start0) diff;
          stealPct = pct (Steal end0) (Steal start0) diff;
          guestPct = pct (Guest end0) (Guest start0) diff;
          guestnicePct = pct (GuestNice end0) (GuestNice start0) diff
      in
      case listing of
        (topProcesses, Some e) \<Rightarrow>
          Returns (CheckStateCritical, Some (TopProcessesError e), None)
      | (topProcesses, None) \<Rightarrow>
     (let report = (\<lambda>w. \<lparr>status_word = w, usedPct = usedPct, cpu_idle = idlePct,
            cpu_system = sysPct, cpu_user = userPct, cpu_nice = nicePct,
            cpu_iowait = iowaitPct, cpu_irq = irqPct, cpu_softirq = softirqPct,
            cpu_steal = stealPct, cpu_guest = guestPct, cpu_guestnice = guestnicePct,
            processInfo = topProcesses\<rparr>)
      in
      if fgt usedPct (Critical plugin)
        then Returns (CheckStateCritical, None, Some (report ''Critical''))
      else if fgt usedPct (Warning plugin)
        then Returns (CheckStateWarning, None, Some (report ''Warning''))
      else Returns (CheckStateOK, None, Some (report ''OK'')))))))"

section \<open>Strings\<close>

text \<open>
  A Go string is a sequence of bytes, here a \<open>string\<close> (a list of 8-bit characters).
  \<^verbatim>\<open>strings.Split(s, sep)\<close> for a separator of one byte, the only kind the program
  passes: the pieces between the separators, at least one piece.
\<close>

fun Split :: "string \<Rightarrow> char \<Rightarrow> string list" where
  "Split [] sep = [[]]"
| "Split (c # cs) sep =
     (if c = sep then [] # Split cs sep
      else (case Split cs sep of [] \<Rightarrow> [[c]] | f # fs \<Rightarrow> (c # f) # fs))"

text \<open>
  The white space of \<^verbatim>\<open>unicode.IsSpace\<close>, as the UTF-8 bytes of each code point:
  tab to carriage return, space, U+0085, U+00A0, U+1680, U+2000 to U+200A, U+2028,
  U+2029, U+202F, U+205F and U+3000.
\<close>

definition unicode_spaces :: "string list" where
  "unicode_spaces =
     [[CHR 0x09], [CHR 0x0A], [CHR 0x0B], [CHR 0x0C], [CHR 0x0D], [CHR 0x20],
      [CHR 0xC2, CHR 0x85], [CHR 0xC2, CHR 0xA0], [CHR 0xE1, CHR 0x9A, CHR 0x80],
      [CHR 0xE2, CHR 0x80, CHR 0x80], [CHR 0xE2, CHR 0x80, CHR 0x81],
      [CHR 0xE2, CHR 0x80, CHR 0x82], [CHR 0xE2, CHR 0x80, CHR 0x83],
      [CHR 0xE2, CHR 0x80, CHR 0x84], [CHR 0xE2, CHR 0x80, CHR 0x85],
      [CHR 0xE2, CHR 0x80, CHR 0x86], [CHR 0xE2, CHR 0x80, CHR 0x87],
      [CHR 0xE2, CHR 0x80, CHR 0x88], [CHR 0xE2, CHR 0x80, CHR 0x89],
      [CHR 0xE2, CHR 0x80, CHR 0x8A], [CHR 0xE2, CHR 0x80, CHR 0xA8],
      [CHR 0xE2, CHR 0x80, CHR 0xA9], [CHR 0xE2, CHR 0x80, CHR 0xAF],
      [CHR 0xE2, CHR 0x81, CHR 0x9F], [CHR 0xE3, CHR 0x80, CHR 0x80]]"

text \<open>The number of bytes of the white-space code point that \<open>s\<close> starts with, or 0.\<close>

definition space_width :: "string \<Rightarrow> nat" where
  "space_width s =
     (case find (\<lambda>p. take (length p) s = p) unicode_spaces of
        None \<Rightarrow> 0 | Some p \<Rightarrow> length p)"

text \<open>
  \<^verbatim>\<open>strings.Fields(s)\<close>: the maximal runs of bytes between white space, none empty.
  \<open>skip\<close> counts the bytes of a white-space code point still to pass, \<open>cur\<close> is the
  field being read.
\<close>

fun fields_from :: "nat \<Rightarrow> string \<Rightarrow> string \<Rightarrow> string list" where
  "fields_from skip cur [] = (if cur = [] then [] else [cur])"
| "fields_from skip cur (c # cs) =
     (if 0 < skip then fields_from (skip - 1) cur cs
      else let w = space_width (c # cs) in
        if 0 < w then (if cur = [] then [] else [cur]) @ fields_from (w - 1) [] cs
        else fields_from 0 (cur @ [c]) cs)"

definition Fields :: "string \<Rightarrow> string list" where
  "Fields s = fields_from 0 [] s"

text \<open>
  \<^verbatim>\<open>strings.Trim(s, cutset)\<close> for a cutset of one ASCII byte, and
  \<^verbatim>\<open>strings.TrimSuffix(s, suffix)\<close>.
\<close>

definition Trim :: "string \<Rightarrow> char \<Rightarrow> string" where
  "Trim s c = rev (dropWhile (\<lambda>x. x = c) (rev (dropWhile (\<lambda>x. x = c) s)))"

definition TrimSuffix :: "string \<Rightarrow> string \<Rightarrow> string" where
  "TrimSuffix s suffix =
     (if length suffix \<le> length s \<and> drop (length s - length suffix) s = suffix
      then take (length s - length suffix) s else s)"

text \<open>
  \<^verbatim>\<open>strconv.Atoi(s)\<close> with a 64-bit \<^verbatim>\<open>int\<close>: an optional sign, then one or more
  decimal digits, and a value from \<open>-2^63\<close> to \<open>2^63 - 1\<close>. \<open>None\<close> stands for a
  non-nil error (syntax or range); the program drops the number returned with it.
\<close>

definition is_digit :: "char \<Rightarrow> bool" where
  "is_digit c = (48 \<le> (of_char c :: int) \<and> (of_char c :: int) \<le> 57)"

definition dec_value :: "string \<Rightarrow> int" where
  "dec_value ds = foldl (\<lambda>n c. 10 * n + (of_char c - 48)) 0 ds"

definition Atoi :: "string \<Rightarrow> int option" where
  "Atoi s =
     (let neg = (take 1 s = ''-'');
          ds = (if take 1 s = ''-'' \<or> take 1 s = ''+'' then drop 1 s else s)
      in if ds = [] \<or> \<not> list_all is_digit ds then None
         else let v = (if neg then - dec_value ds else dec_value ds)
           in if - (2 ^ 63) \<le> v \<and> v < 2 ^ 63 then Some v else None)"

section \<open>The top-process ranker\<close>

text \<open>
  Two functions of the standard library are parameters of the ranker:
  \<^item> \<open>ParseFloat\<close> stands for \<^verbatim>\<open>strconv.ParseFloat(s, 64)\<close>, \<open>None\<close> for a non-nil
    error. Its rounding cannot be represented here, so nothing is assumed of it.
  \<^item> \<open>Slice\<close> stands for \<^verbatim>\<open>sort.Slice\<close>, given the comparison of two elements (the
    closure of the program compares the elements at two indices of the slice being
    sorted). What is assumed of it is stated where it is used.
\<close>

text \<open>
  The loop over the lines of \<^verbatim>\<open>ps aux\<close>: a line with fewer than 11 fields, a CPU field
  that does not parse or a PID field that does not parse is passed over
  (\<^verbatim>\<open>continue\<close>); any other line appends one \<^verbatim>\<open>ProcessInfo\<close>.
\<close>

fun ps_loop :: "(string \<Rightarrow> float64 option) \<Rightarrow> string list \<Rightarrow> ProcessInfo list" where
  "ps_loop ParseFloat [] = []"
| "ps_loop ParseFloat (line # rest) =
     (let fields = Fields line in
      if length fields < 11 then ps_loop ParseFloat rest
      else case ParseFloat (fields ! 2) of
        None \<Rightarrow> ps_loop ParseFloat rest
      | Some cpu \<Rightarrow>
          (case Atoi (fields ! 1) of
             None \<Rightarrow> ps_loop ParseFloat rest
           | Some pid \<Rightarrow>
               \<lparr>PID = pid, CPU = cpu, Name = fields ! 10\<rparr> # ps_loop ParseFloat rest))"

text \<open>The loop over the lines of \<^verbatim>\<open>tasklist\<close> in CSV form.\<close>

fun tasklist_loop :: "(string \<Rightarrow> float64 option) \<Rightarrow> string list \<Rightarrow> ProcessInfo list" where
  "tasklist_loop ParseFloat [] = []"
| "tasklist_loop ParseFloat (line # rest) =
     (let fields = Split line (CHR '','') in
      if length fields < 8 then tasklist_loop ParseFloat rest
      else let cpu = Trim (fields ! 7) (CHR 0x22) in
        case ParseFloat (TrimSuffix cpu '' K'') of
          None \<Rightarrow> tasklist_loop ParseFloat rest
        | Some cpuFloat \<Rightarrow>
            (case Atoi (Trim (fields ! 1) (CHR 0x22)) of
               None \<Rightarrow> tasklist_loop ParseFloat rest
             | Some pid \<Rightarrow>
                 \<lparr>PID = pid, CPU = cpuFloat, Name = Trim (fields ! 0) (CHR 0x22)\<rparr>
                   # tasklist_loop ParseFloat rest))"

text \<open>The closure given to \<^verbatim>\<open>sort.Slice\<close>: \<^verbatim>\<open>processes[i].CPU > processes[j].CPU\<close>.\<close>

definition cpu_greater :: "ProcessInfo \<Rightarrow> ProcessInfo \<Rightarrow> bool" where
  "cpu_greater p q = fgt (CPU p) (CPU q)"

text \<open>
  \<^verbatim>\<open>parseProcessOutput\<close>. \<^verbatim>\<open>lines[1:]\<close> is \<open>drop 1 lines\<close>: \<open>Split\<close> returns at least one
  piece, so the slice expression is always in range.
\<close>

definition parseProcessOutput ::
  "(string \<Rightarrow> float64 option)
     \<Rightarrow> ((ProcessInfo \<Rightarrow> ProcessInfo \<Rightarrow> bool) \<Rightarrow> ProcessInfo list \<Rightarrow> ProcessInfo list)
     \<Rightarrow> string \<Rightarrow> string \<Rightarrow> ProcessInfo list \<times> error option" where
  "parseProcessOutput ParseFloat Slice output os =
     (let lines = Split output (CHR 0x0A);
          processes =
            (if os = ''darwin'' \<or> os = ''linux'' then ps_loop ParseFloat (drop 1 lines)
             else if os = ''windows'' then tasklist_loop ParseFloat lines
             else []);
          processes = Slice cpu_greater processes;
          processes = (if length processes > 10 then take 10 processes else processes)
      in (processes, None))"


text \<open>
  \<^verbatim>\<open>getTopCPUProcesses\<close> of the version that asks gopsutil. A process handle is its
  PID with what \<^verbatim>\<open>CPUPercent()\<close> and \<^verbatim>\<open>Name()\<close> return for it; \<open>procs\<close> is what
  \<^verbatim>\<open>process.Processes()\<close> returns.
\<close>

type_synonym Process = "int \<times> (error + float64) \<times> (error + string)"

fun process_loop :: "Process list \<Rightarrow> ProcessInfo list" where
  "process_loop [] = []"
| "process_loop ((pid, cpuPercent, name) # rest) =
     (case cpuPercent of
        Inl err \<Rightarrow> process_loop rest
      | Inr c \<Rightarrow>
          (case name of
             Inl err \<Rightarrow> process_loop rest
           | Inr n \<Rightarrow> \<lparr>PID = pid, CPU = c, Name = n\<rparr> # process_loop rest))"

definition getTopCPUProcesses_gopsutil ::
  "((ProcessInfo \<Rightarrow> ProcessInfo \<Rightarrow> bool) \<Rightarrow> ProcessInfo list \<Rightarrow> ProcessInfo list)
     \<Rightarrow> error + Process list \<Rightarrow> ProcessInfo list \<times> error option" where
  "getTopCPUProcesses_gopsutil Slice procs =
     (case procs of
        Inl err \<Rightarrow> ([], Some err)
      | Inr ps \<Rightarrow>
          (let processList = process_loop ps;
               processList = Slice cpu_greater processList;
               processList = (if length processList > 10 then take 10 processList
                              else processList)
           in (processList, None)))"

section \<open>The sort of the standard library\<close>

text \<open>
  \<^verbatim>\<open>sort.Slice\<close> of Go 1.19 and later is pattern-defeating quicksort
  (\<^verbatim>\<open>pdqsort_func\<close> in \<^verbatim>\<open>sort/zsortfunc.go\<close>), here function by function. The slice
  is a list \<open>d\<close>, \<open>lt\<close> compares two elements (\<^verbatim>\<open>data.Less(i, j)\<close> is
  \<open>lt (d ! i) (d ! j)\<close>), \<^verbatim>\<open>data.Swap(i, j)\<close> is \<open>swap d i j\<close>, and every function
  returns the slice it leaves. The library reads and writes inside the slice only (it would
  panic otherwise), so \<open>d ! i\<close> is never asked outside the list. The library
  documents that the sort is not stable.
\<close>

definition swap :: "'a list \<Rightarrow> nat \<Rightarrow> nat \<Rightarrow> 'a list" where
  "swap d i j = d[i := d ! j, j := d ! i]"

text \<open>
  \<^verbatim>\<open>insertionSort_func\<close>: its inner loop moves the element at \<open>j\<close> down while it
  is less than its left neighbour, its outer loop runs \<open>i\<close> from \<open>a + 1\<close> to \<open>b\<close>.
\<close>

function sift_left :: "('a \<Rightarrow> 'a \<Rightarrow> bool) \<Rightarrow> 'a list \<Rightarrow> nat \<Rightarrow> nat \<Rightarrow> 'a list" where
  "sift_left lt d a j =
     (if a < j \<and> lt (d ! j) (d ! (j - 1)) then sift_left lt (swap d j (j - 1)) a (j - 1)
      else d)"
  by pat_completeness auto
termination
  by (relation "measure (\<lambda>(lt, d, a, j). j)") auto

declare sift_left.simps [simp del]

function insertion_loop ::
  "('a \<Rightarrow> 'a \<Rightarrow> bool) \<Rightarrow> 'a list \<Rightarrow> nat \<Rightarrow> nat \<Rightarrow> nat \<Rightarrow> 'a list" where
  "insertion_loop lt d a i b =
     (if i < b then insertion_loop lt (sift_left lt d a i) a (i + 1) b else d)"
  by pat_completeness auto
termination
  by (relation "measure (\<lambda>(lt, d, a, i, b). b - i)") auto

declare insertion_loop.simps [simp del]

definition insertionSort_func ::
  "('a \<Rightarrow> 'a \<Rightarrow> bool) \<Rightarrow> 'a list \<Rightarrow> nat \<Rightarrow> nat \<Rightarrow> 'a list" where
  "insertionSort_func lt d a b = insertion_loop lt d a (a + 1) b"

text \<open>\<^verbatim>\<open>siftDown_func\<close> and \<^verbatim>\<open>heapSort_func\<close> (its two loops count \<open>i\<close> down to 0).\<close>

function siftDown_func ::
  "('a \<Rightarrow> 'a \<Rightarrow> bool) \<Rightarrow> 'a list \<Rightarrow> nat \<Rightarrow> nat \<Rightarrow> nat \<Rightarrow> 'a list" where
  "siftDown_func lt d node hi first =
     (let child = 2 * node + 1 in
      if child \<ge> hi then d
      else
        let child = (if child + 1 < hi \<and> lt (d ! (first + child)) (d ! (first + child + 1))
                     then child + 1 else child)
        in if \<not> lt (d ! (first + node)) (d ! (first + child)) then d
           else siftDown_func lt (swap d (first + node) (first + child)) child hi first)"
  by pat_completeness auto
termination
  by (relation "measure (\<lambda>(lt, d, node, hi, first). hi - node)") (auto split: if_splits)

declare siftDown_func.simps [simp del]

fun heap_build ::
  "('a \<Rightarrow> 'a \<Rightarrow> bool) \<Rightarrow> 'a list \<Rightarrow> nat \<Rightarrow> nat \<Rightarrow> nat \<Rightarrow> 'a list" where
  "heap_build lt d hi first 0 = siftDown_func lt d 0 hi first"
| "heap_build lt d hi first (Suc i) =
     heap_build lt (siftDown_func lt d (Suc i) hi first) hi first i"

fun heap_pop :: "('a \<Rightarrow> 'a \<Rightarrow> bool) \<Rightarrow> 'a list \<Rightarrow> nat \<Rightarrow> nat \<Rightarrow> 'a list" where
  "heap_pop lt d first 0 = siftDown_func lt (swap d first first) 0 0 first"
| "heap_pop lt d first (Suc i) =
     heap_pop lt (siftDown_func lt (swap d first (first + Suc i)) 0 (Suc i) first) first i"

definition heapSort_func ::
  "('a \<Rightarrow> 'a \<Rightarrow> bool) \<Rightarrow> 'a list \<Rightarrow> nat \<Rightarrow> nat \<Rightarrow> 'a list" where
  "heapSort_func lt d a b =
     (let first = a; hi = b - a;
          d = heap_build lt d hi first ((hi - 1) div 2)
      in if hi = 0 then d else heap_pop lt d first (hi - 1))"

text \<open>
  \<^verbatim>\<open>partition_func\<close>. \<open>scan_less\<close> is the loop \<^verbatim>\<open>for i <= j && less(i, a) { i++ }\<close>,
  \<open>scan_not_less\<close> the loop \<^verbatim>\<open>for i <= j && !less(j, a) { j-- }\<close>. In the latter
  \<open>i\<close> is at least \<open>a + 1\<close>, so it is never 0 and \<open>j\<close> never falls below 0; the
  equations for \<open>i = 0\<close> and for \<open>j = 0\<close> are there for totality only.
\<close>

function scan_less :: "('a \<Rightarrow> 'a \<Rightarrow> bool) \<Rightarrow> 'a list \<Rightarrow> nat \<Rightarrow> nat \<Rightarrow> nat \<Rightarrow> nat" where
  "scan_less lt d a i j =
     (if i \<le> j \<and> lt (d ! i) (d ! a) then scan_less lt d a (i + 1) j else i)"
  by pat_completeness auto
termination
  by (relation "measure (\<lambda>(lt, d, a, i, j). j + 1 - i)") auto

declare scan_less.simps [simp del]

fun scan_not_less :: "('a \<Rightarrow> 'a \<Rightarrow> bool) \<Rightarrow> 'a list \<Rightarrow> nat \<Rightarrow> nat \<Rightarrow> nat \<Rightarrow> nat" where
  "scan_not_less lt d a 0 j = j"
| "scan_not_less lt d a (Suc k) 0 = 0"
| "scan_not_less lt d a (Suc k) (Suc j) =
     (if Suc k \<le> Suc j \<and> \<not> lt (d ! Suc j) (d ! a) then scan_not_less lt d a (Suc k) j
      else Suc j)"

lemma scan_less_ge: "i \<le> scan_less lt d a i j"
proof (induction lt d a i j rule: scan_less.induct)
  case (1 lt d a i j)
  show ?case
  proof (cases "i \<le> j \<and> lt (d ! i) (d ! a)")
    case True
    with 1 have "i + 1 \<le> scan_less lt d a (i + 1) j" by simp
    with True show ?thesis by (subst scan_less.simps) simp
  next
    case False
    then show ?thesis by (subst scan_less.simps) auto
  qed
qed

lemma scan_not_less_le: "scan_not_less lt d a i j \<le> j"
  by (induction lt d a i j rule: scan_not_less.induct) auto

lemma scan_not_less_ge: "min j (i - 1) \<le> scan_not_less lt d a i j"
  by (induction lt d a i j rule: scan_not_less.induct) auto

function partition_loop ::
  "('a \<Rightarrow> 'a \<Rightarrow> bool) \<Rightarrow> 'a list \<Rightarrow> nat \<Rightarrow> nat \<Rightarrow> nat \<Rightarrow> 'a list \<times> nat" where
  "partition_loop lt d a i j =
     (let i = scan_less lt d a i j;
          j = scan_not_less lt d a i j
      in if i > j then (d, j)
         else partition_loop lt (swap d i j) a (i + 1) (j - 1))"
  by pat_completeness auto
termination
proof (relation "measure (\<lambda>(lt, d, a, i, j). j + 1 - i)", goal_cases)
  case 1
  then show ?case by simp
next
  case (2 lt d a i j i' j')
  have "i \<le> i'" using 2 scan_less_ge by metis
  moreover have "j' \<le> j" using 2 scan_not_less_le by metis
  ultimately show ?case using 2 by auto
qed

declare partition_loop.simps [simp del]

definition partition_func ::
  "('a \<Rightarrow> 'a \<Rightarrow> bool) \<Rightarrow> 'a list \<Rightarrow> nat \<Rightarrow> nat \<Rightarrow> nat \<Rightarrow> 'a list \<times> nat \<times> bool" where
  "partition_func lt d a b pivot =
     (let d = swap d a pivot;
          i = a + 1; j = b - 1;
          i = scan_less lt d a i j;
          j = scan_not_less lt d a i j
      in if i > j then (swap d j a, j, True)
         else
           let d = swap d i j;
               i = i + 1; j = j - 1;
               r = partition_loop lt d a i j;
               d = fst r; j = snd r
           in (swap d j a, j, False))"


text \<open>
  \<^verbatim>\<open>partitionEqual_func\<close>, with its loops \<^verbatim>\<open>for i <= j && !less(a, i) { i++ }\<close> and
  \<^verbatim>\<open>for i <= j && less(a, j) { j-- }\<close>.
\<close>

function scan_not_greater :: "('a \<Rightarrow> 'a \<Rightarrow> bool) \<Rightarrow> 'a list \<Rightarrow> nat \<Rightarrow> nat \<Rightarrow> nat \<Rightarrow> nat" where
  "scan_not_greater lt d a i j =
     (if i \<le> j \<and> \<not> lt (d ! a) (d ! i) then scan_not_greater lt d a (i + 1) j else i)"
  by pat_completeness auto
termination
  by (relation "measure (\<lambda>(lt, d, a, i, j). j + 1 - i)") auto

declare scan_not_greater.simps [simp del]

fun scan_greater :: "('a \<Rightarrow> 'a \<Rightarrow> bool) \<Rightarrow> 'a list \<Rightarrow> nat \<Rightarrow> nat \<Rightarrow> nat \<Rightarrow> nat" where
  "scan_greater lt d a 0 j = j"
| "scan_greater lt d a (Suc k) 0 = 0"
| "scan_greater lt d a (Suc k) (Suc j) =
     (if Suc k \<le> Suc j \<and> lt (d ! a) (d ! Suc j) then scan_greater lt d a (Suc k) j
      else Suc j)"

lemma scan_not_greater_ge: "i \<le> scan_not_greater lt d a i j"
proof (induction lt d a i j rule: scan_not_greater.induct)
  case (1 lt d a i j)
  show ?case
  proof (cases "i \<le> j \<and> \<not> lt (d ! a) (d ! i)")
    case True
    with 1 have "i + 1 \<le> scan_not_greater lt d a (i + 1) j" by simp
    with True show ?thesis by (subst scan_not_greater.simps) simp
  next
    case False
    then show ?thesis by (subst scan_not_greater.simps) auto
  qed
qed

lemma scan_greater_le: "scan_greater lt d a i j \<le> j"
  by (induction lt d a i j rule: scan_greater.induct) auto

function partitionEqual_loop ::
  "('a \<Rightarrow> 'a \<Rightarrow> bool) \<Rightarrow> 'a list \<Rightarrow> nat \<Rightarrow> nat \<Rightarrow> nat \<Rightarrow> 'a list \<times> nat" where
  "partitionEqual_loop lt d a i j =
     (let i = scan_not_greater lt d a i j;
          j = scan_greater lt d a i j
      in if i > j then (d, i)
         else partitionEqual_loop lt (swap d i j) a (i + 1) (j - 1))"
  by pat_completeness auto
termination
proof (relation "measure (\<lambda>(lt, d, a, i, j). j + 1 - i)", goal_cases)
  case 1
  then show ?case by simp
next
  case (2 lt d a i j i' j')
  have "i \<le> i'" using 2 scan_not_greater_ge by metis
  moreover have "j' \<le> j" using 2 scan_greater_le by metis
  ultimately show ?case using 2 by auto
qed

declare partitionEqual_loop.simps [simp del]

definition partitionEqual_func ::
  "('a \<Rightarrow> 'a \<Rightarrow> bool) \<Rightarrow> 'a list \<Rightarrow> nat \<Rightarrow> nat \<Rightarrow> nat \<Rightarrow> 'a list \<times> nat" where
  "partitionEqual_func lt d a b pivot =
     (let d = swap d a pivot;
          i = a + 1; j = b - 1
      in partitionEqual_loop lt d a i j)"

text \<open>
  \<^verbatim>\<open>partialInsertionSort_func\<close>: at most 5 steps; each skips the sorted stretch,
  gives up on a range shorter than 50, and otherwise swaps the out-of-order pair and
  shifts the smaller element left (down to index 1, as the source has it) and the
  greater one right.
\<close>

function skip_sorted :: "('a \<Rightarrow> 'a \<Rightarrow> bool) \<Rightarrow> 'a list \<Rightarrow> nat \<Rightarrow> nat \<Rightarrow> nat" where
  "skip_sorted lt d i b =
     (if i < b \<and> \<not> lt (d ! i) (d ! (i - 1)) then skip_sorted lt d (i + 1) b else i)"
  by pat_completeness auto
termination
  by (relation "measure (\<lambda>(lt, d, i, b). b - i)") auto

declare skip_sorted.simps [simp del]

fun shift_smaller :: "('a \<Rightarrow> 'a \<Rightarrow> bool) \<Rightarrow> 'a list \<Rightarrow> nat \<Rightarrow> 'a list" where
  "shift_smaller lt d 0 = d"
| "shift_smaller lt d (Suc k) =
     (if \<not> lt (d ! Suc k) (d ! k) then d else shift_smaller lt (swap d (Suc k) k) k)"

function shift_greater :: "('a \<Rightarrow> 'a \<Rightarrow> bool) \<Rightarrow> 'a list \<Rightarrow> nat \<Rightarrow> nat \<Rightarrow> 'a list" where
  "shift_greater lt d j b =
     (if j < b then
        (if \<not> lt (d ! j) (d ! (j - 1)) then d
         else shift_greater lt (swap d j (j - 1)) (j + 1) b)
      else d)"
  by pat_completeness auto
termination
  by (relation "measure (\<lambda>(lt, d, j, b). b - j)") auto

declare shift_greater.simps [simp del]

fun partial_steps ::
  "nat \<Rightarrow> ('a \<Rightarrow> 'a \<Rightarrow> bool) \<Rightarrow> 'a list \<Rightarrow> nat \<Rightarrow> nat \<Rightarrow> nat \<Rightarrow> bool \<times> 'a list" where
  "partial_steps 0 lt d a i b = (False, d)"
| "partial_steps (Suc n) lt d a i b =
     (let i = skip_sorted lt d i b in
      if i = b then (True, d)
      else if b - a < 50 then (False, d)
      else
        let d = swap d i (i - 1);
            d = (if i - a \<ge> 2 then shift_smaller lt d (i - 1) else d);
            d = (if b - i \<ge> 2 then shift_greater lt d (i + 1) b else d)
        in partial_steps n lt d a i b)"

definition partialInsertionSort_func ::
  "('a \<Rightarrow> 'a \<Rightarrow> bool) \<Rightarrow> 'a list \<Rightarrow> nat \<Rightarrow> nat \<Rightarrow> bool \<times> 'a list" where
  "partialInsertionSort_func lt d a b = partial_steps 5 lt d a (a + 1) b"

text \<open>
  \<^verbatim>\<open>breakPatterns_func\<close> with its generator \<^verbatim>\<open>xorshift\<close> (the shifts 13, 17 and 5 of
  Go 1.19, on 64 bits), and \<^verbatim>\<open>bits.Len\<close>. It is reached only after a partition that
  left one side shorter than an eighth of the range.
\<close>

definition xorshift_Next :: "64 word \<Rightarrow> 64 word" where
  "xorshift_Next r =
     (let r = r XOR push_bit 13 r;
          r = r XOR drop_bit 17 r;
          r = r XOR push_bit 5 r
      in r)"

fun bits_Len :: "nat \<Rightarrow> nat" where
  "bits_Len n = (if n = 0 then 0 else 1 + bits_Len (n div 2))"

declare bits_Len.simps [simp del]

definition nextPowerOfTwo :: "nat \<Rightarrow> nat" where
  "nextPowerOfTwo len = 2 ^ bits_Len len"

fun breakPatterns_loop ::
  "nat \<Rightarrow> 64 word \<Rightarrow> 'a list \<Rightarrow> nat \<Rightarrow> nat \<Rightarrow> nat \<Rightarrow> nat \<Rightarrow> nat \<Rightarrow> 'a list" where
  "breakPatterns_loop 0 random d a len modulus idx i = d"
| "breakPatterns_loop (Suc n) random d a len modulus idx i =
     (let random = xorshift_Next random;
          other = unat (random AND (of_nat modulus - 1));
          other = (if other \<ge> len then other - len else other)
      in breakPatterns_loop n random (swap d (idx - 1 + i) (a + other)) a len modulus idx
           (i + 1))"

definition breakPatterns_func :: "'a list \<Rightarrow> nat \<Rightarrow> nat \<Rightarrow> 'a list" where
  "breakPatterns_func d a b =
     (let len = b - a in
      if len \<ge> 8 then
        (let random = (of_nat len :: 64 word);
             modulus = nextPowerOfTwo len;
             idx = a + (len div 4) * 2 - 1
         in breakPatterns_loop 3 random d a len modulus idx 0)
      else d)"

text \<open>\<^verbatim>\<open>choosePivot_func\<close> with \<^verbatim>\<open>order2_func\<close>, \<^verbatim>\<open>median_func\<close> and \<^verbatim>\<open>medianAdjacent_func\<close>.\<close>

datatype sortedHint = unknownHint | increasingHint | decreasingHint

definition order2_func ::
  "('a \<Rightarrow> 'a \<Rightarrow> bool) \<Rightarrow> 'a list \<Rightarrow> nat \<Rightarrow> nat \<Rightarrow> nat \<Rightarrow> nat \<times> nat \<times> nat" where
  "order2_func lt d a b swaps = (if lt (d ! b) (d ! a) then (b, a, swaps + 1) else (a, b, swaps))"

definition median_func ::
  "('a \<Rightarrow> 'a \<Rightarrow> bool) \<Rightarrow> 'a list \<Rightarrow> nat \<Rightarrow> nat \<Rightarrow> nat \<Rightarrow> nat \<Rightarrow> nat \<times> nat" where
  "median_func lt d a b c swaps =
     (case order2_func lt d a b swaps of (a, b, swaps) \<Rightarrow>
      case order2_func lt d b c swaps of (b, c, swaps) \<Rightarrow>
      case order2_func lt d a b swaps of (a, b, swaps) \<Rightarrow> (b, swaps))"

definition medianAdjacent_func ::
  "('a \<Rightarrow> 'a \<Rightarrow> bool) \<Rightarrow> 'a list \<Rightarrow> nat \<Rightarrow> nat \<Rightarrow> nat \<times> nat" where
  "medianAdjacent_func lt d a swaps = median_func lt d (a - 1) a (a + 1) swaps"

definition choosePivot_func ::
  "('a \<Rightarrow> 'a \<Rightarrow> bool) \<Rightarrow> 'a list \<Rightarrow> nat \<Rightarrow> nat \<Rightarrow> nat \<times> sortedHint" where
  "choosePivot_func lt d a b =
     (let l = b - a;
          swaps = 0;
          i = a + l div 4 * 1;
          j = a + l div 4 * 2;
          k = a + l div 4 * 3;
          (j, swaps) =
            (if l \<ge> 8 then
               (if l \<ge> 50 then
                  (case medianAdjacent_func lt d i swaps of (i, swaps) \<Rightarrow>
                   case medianAdjacent_func lt d j swaps of (j, swaps) \<Rightarrow>
                   case medianAdjacent_func lt d k swaps of (k, swaps) \<Rightarrow>
                     median_func lt d i j k swaps)
                else median_func lt d i j k swaps)
             else (j, swaps))
      in if swaps = 0 then (j, increasingHint)
         else if swaps = 4 * 3 then (j, decreasingHint)
         else (j, unknownHint))"

text \<open>\<^verbatim>\<open>reverseRange_func\<close>.\<close>

function reverse_loop :: "'a list \<Rightarrow> nat \<Rightarrow> nat \<Rightarrow> 'a list" where
  "reverse_loop d i j = (if i < j then reverse_loop (swap d i j) (i + 1) (j - 1) else d)"
  by pat_completeness auto
termination
  by (relation "measure (\<lambda>(d, i, j). j - i)") auto

declare reverse_loop.simps [simp del]

definition reverseRange_func :: "'a list \<Rightarrow> nat \<Rightarrow> nat \<Rightarrow> 'a list" where
  "reverseRange_func d a b = reverse_loop d a (b - 1)"


text \<open>
  The pivot position that a partition returns lies in the range, which is what makes
  the ranges of \<^verbatim>\<open>pdqsort_func\<close> shrink.
\<close>

lemma partition_loop_bounds:
  "a + 1 \<le> i \<Longrightarrow> a \<le> j \<Longrightarrow>
   a \<le> snd (partition_loop lt d a i j) \<and> snd (partition_loop lt d a i j) \<le> j"
proof (induction lt d a i j rule: partition_loop.induct)
  case (1 lt d a i j)
  define i' where "i' = scan_less lt d a i j"
  define j' where "j' = scan_not_less lt d a i' j"
  have i': "i \<le> i'" unfolding i'_def by (rule scan_less_ge)
  have j'le: "j' \<le> j" unfolding j'_def by (rule scan_not_less_le)
  have "min j (i' - 1) \<le> j'" unfolding j'_def by (rule scan_not_less_ge)
  with i' 1(2,3) have j'ge: "a \<le> j'" by auto
  show ?case
  proof (cases "i' > j'")
    case True
    then show ?thesis
      using j'le j'ge by (subst (1 2) partition_loop.simps) (simp add: Let_def i'_def j'_def)
  next
    case False
    have "a \<le> snd (partition_loop lt (swap d i' j') a (i' + 1) (j' - 1)) \<and>
          snd (partition_loop lt (swap d i' j') a (i' + 1) (j' - 1)) \<le> j' - 1"
      using "1.IH"[OF i'_def j'_def] False i' 1(2) by auto
    then show ?thesis
      using False j'le
      by (subst (1 2) partition_loop.simps) (auto simp add: Let_def i'_def j'_def)
  qed
qed

lemma partition_func_bounds:
  assumes "a < b"
  shows "a \<le> fst (snd (partition_func lt d a b pivot)) \<and>
         fst (snd (partition_func lt d a b pivot)) < b"
proof -
  define d1 where "d1 = swap d a pivot"
  define I where "I = scan_less lt d1 a (a + 1) (b - 1)"
  define J where "J = scan_not_less lt d1 a I (b - 1)"
  define L where "L = snd (partition_loop lt (swap d1 I J) a (I + 1) (J - 1))"
  have eq: "fst (snd (partition_func lt d a b pivot)) = (if I > J then J else L)"
    unfolding L_def J_def I_def d1_def by (simp add: partition_func_def Let_def)
  have i': "a + 1 \<le> I" unfolding I_def by (rule scan_less_ge)
  have j'le: "J \<le> b - 1" unfolding J_def by (rule scan_not_less_le)
  have "min (b - 1) (I - 1) \<le> J" unfolding J_def by (rule scan_not_less_ge)
  with i' assms have j'ge: "a \<le> J" by arith
  have l: "\<not> I > J \<Longrightarrow> a \<le> L \<and> L \<le> J - 1"
  proof -
    assume "\<not> I > J"
    then have "a + 1 \<le> I + 1" "a \<le> J - 1" using i' by arith+
    from partition_loop_bounds[OF this] show ?thesis unfolding L_def .
  qed
  show ?thesis
    unfolding eq using l j'le j'ge assms by (cases "I > J") (simp, arith)
qed

lemma partitionEqual_loop_ge: "i \<le> snd (partitionEqual_loop lt d a i j)"
proof (induction lt d a i j rule: partitionEqual_loop.induct)
  case (1 lt d a i j)
  define i' where "i' = scan_not_greater lt d a i j"
  define j' where "j' = scan_greater lt d a i' j"
  have i': "i \<le> i'" unfolding i'_def by (rule scan_not_greater_ge)
  show ?case
  proof (cases "i' > j'")
    case True
    then show ?thesis
      using i' by (subst partitionEqual_loop.simps) (simp add: Let_def i'_def j'_def)
  next
    case False
    have "i' + 1 \<le> snd (partitionEqual_loop lt (swap d i' j') a (i' + 1) (j' - 1))"
      using "1.IH"[OF i'_def j'_def] False by auto
    then show ?thesis
      using False i'
      by (subst partitionEqual_loop.simps) (auto simp add: Let_def i'_def j'_def)
  qed
qed

lemma partitionEqual_func_gt: "a < snd (partitionEqual_func lt d a b pivot)"
  using partitionEqual_loop_ge[of "a + 1" lt "swap d a pivot" a "b - 1"]
  by (simp add: partitionEqual_func_def Let_def)

text \<open>
  \<^verbatim>\<open>pdqsort_func\<close>: the loop of the source is the recursion on the larger side, the
  call of the source the recursion on the smaller side, which starts with
  \<^verbatim>\<open>wasBalanced\<close> and \<^verbatim>\<open>wasPartitioned\<close> true.
\<close>

function pdqsort_func ::
  "('a \<Rightarrow> 'a \<Rightarrow> bool) \<Rightarrow> 'a list \<Rightarrow> nat \<Rightarrow> nat \<Rightarrow> nat \<Rightarrow> bool \<Rightarrow> bool \<Rightarrow> 'a list" where
  "pdqsort_func lt d a b limit wasBalanced wasPartitioned =
     (if b - a \<le> 12 then insertionSort_func lt d a b
      else if limit = 0 then heapSort_func lt d a b
      else
        let d1 = (if \<not> wasBalanced then breakPatterns_func d a b else d);
            limit1 = (if \<not> wasBalanced then limit - 1 else limit);
            ph = choosePivot_func lt d1 a b;
            d2 = (if snd ph = decreasingHint then reverseRange_func d1 a b else d1);
            pivot = (if snd ph = decreasingHint then (b - 1) - (fst ph - a) else fst ph);
            hint = (if snd ph = decreasingHint then increasingHint else snd ph);
            likely = (wasBalanced \<and> wasPartitioned \<and> hint = increasingHint);
            pis = partialInsertionSort_func lt d2 a b
        in if likely \<and> fst pis then snd pis
           else
             let d3 = (if likely then snd pis else d2) in
             if 0 < a \<and> \<not> lt (d3 ! (a - 1)) (d3 ! pivot) then
               (let pe = partitionEqual_func lt d3 a b pivot
                in pdqsort_func lt (fst pe) (snd pe) b limit1 wasBalanced wasPartitioned)
             else
               (let pr = partition_func lt d3 a b pivot;
                    d4 = fst pr;
                    mid = fst (snd pr);
                    alreadyPartitioned = snd (snd pr);
                    leftLen = mid - a;
                    rightLen = b - mid;
                    balanceThreshold = (b - a) div 8
                in if leftLen < rightLen then
                     pdqsort_func lt (pdqsort_func lt d4 a mid limit1 True True) (mid + 1) b
                       limit1 (leftLen \<ge> balanceThreshold) alreadyPartitioned
                   else
                     pdqsort_func lt (pdqsort_func lt d4 (mid + 1) b limit1 True True) a mid
                       limit1 (rightLen \<ge> balanceThreshold) alreadyPartitioned))"
  by pat_completeness auto
termination
proof (relation "measure (\<lambda>(lt, d, a, b, limit, wb, wp). b - a)", goal_cases)
  case 1
  show ?case by simp
next
  case (2 lt d a b limit wb wp x xa xb xc xd xe xf xg xh xi)
  have "a < snd xi" unfolding 2(14) by (rule partitionEqual_func_gt)
  with 2(1) show ?case by simp
next
  case (3 lt d a b limit wb wp x xa xb xc xd xe xf xg xh xi xj xk xl xm xn xo)
  from 3(1) have "a < b" by simp
  from partition_func_bounds[OF this, of lt xh xd]
  have "a \<le> xk \<and> xk < b" unfolding 3(16) 3(14) .
  then show ?case by simp arith
next
  case (4 lt d a b limit wb wp x xa xb xc xd xe xf xg xh xi xj xk xl xm xn xo)
  from 4(1) have "a < b" by simp
  from partition_func_bounds[OF this, of lt xh xd]
  have "a \<le> xk \<and> xk < b" unfolding 4(16) 4(14) .
  then show ?case by simp arith
next
  case (5 lt d a b limit wb wp x xa xb xc xd xe xf xg xh xi xj xk xl xm xn xo)
  from 5(1) have "a < b" by simp
  from partition_func_bounds[OF this, of lt xh xd]
  have "a \<le> xk \<and> xk < b" unfolding 5(16) 5(14) .
  then show ?case by simp arith
next
  case (6 lt d a b limit wb wp x xa xb xc xd xe xf xg xh xi xj xk xl xm xn xo)
  from 6(1) have "a < b" by simp
  from partition_func_bounds[OF this, of lt xh xd]
  have "a \<le> xk \<and> xk < b" unfolding 6(16) 6(14) .
  then show ?case by simp arith
qed

declare pdqsort_func.simps [simp del]

text \<open>\<^verbatim>\<open>sort.Slice(x, less)\<close>.\<close>

definition sort_Slice :: "('a \<Rightarrow> 'a \<Rightarrow> bool) \<Rightarrow> 'a list \<Rightarrow> 'a list" where
  "sort_Slice lt x =
     (let len = length x;
          limit = bits_Len len
      in pdqsort_func lt x 0 len limit True True)"

section \<open>What the ranker may assume of \<^verbatim>\<open>sort.Slice\<close>\<close>

text \<open>
  The documentation of package \<^verbatim>\<open>sort\<close> asks that \<^verbatim>\<open>less\<close> be a transitive ordering:
  if \<^verbatim>\<open>less(i, j)\<close> and \<^verbatim>\<open>less(j, k)\<close> then \<^verbatim>\<open>less(i, k)\<close>, and if neither
  \<^verbatim>\<open>less(i, j)\<close> nor \<^verbatim>\<open>less(j, k)\<close> then not \<^verbatim>\<open>less(i, k)\<close>; it notes that the
  comparison of floating-point numbers is not one when NaN is among them. No element
  is less than itself.
\<close>

definition transitive_ordering :: "('a \<Rightarrow> 'a \<Rightarrow> bool) \<Rightarrow> 'a set \<Rightarrow> bool" where
  "transitive_ordering lt A \<longleftrightarrow>
     (\<forall>x\<in>A. \<not> lt x x) \<and>
     (\<forall>x\<in>A. \<forall>y\<in>A. \<forall>z\<in>A. lt x y \<and> lt y z \<longrightarrow> lt x z) \<and>
     (\<forall>x\<in>A. \<forall>y\<in>A. \<forall>z\<in>A. \<not> lt x y \<and> \<not> lt y z \<longrightarrow> \<not> lt x z)"

text \<open>
  What the documentation promises of \<^verbatim>\<open>sort.Slice\<close>: the slice is permuted, and for a
  transitive ordering no element is less than an element before it. It promises no
  order between elements neither of which is less than the other.
\<close>

definition sort_Slice_contract :: "(('a \<Rightarrow> 'a \<Rightarrow> bool) \<Rightarrow> 'a list \<Rightarrow> 'a list) \<Rightarrow> bool" where
  "sort_Slice_contract Slice \<longleftrightarrow>
     (\<forall>lt x. mset (Slice lt x) = mset x \<and>
        (transitive_ordering lt (set x) \<longrightarrow> sorted_wrt (\<lambda>p q. \<not> lt q p) (Slice lt x)))"

text \<open>
  Insertion sort over the whole slice. On slices of at most 12 elements this is what
  \<open>sort_Slice\<close> does; it meets the contract on slices of every length.
\<close>

definition Slice_insertion :: "('a \<Rightarrow> 'a \<Rightarrow> bool) \<Rightarrow> 'a list \<Rightarrow> 'a list" where
  "Slice_insertion lt x = insertionSort_func lt x 0 (length x)"

text \<open>
  Insertion sort on lists: \<open>insert_back\<close> puts \<open>x\<close> into a list held back to front,
  \<open>insert_sorted\<close> into a list held front to back.
\<close>

fun insert_back :: "('a \<Rightarrow> 'a \<Rightarrow> bool) \<Rightarrow> 'a \<Rightarrow> 'a list \<Rightarrow> 'a list" where
  "insert_back lt x [] = [x]"
| "insert_back lt x (y # ys) = (if lt x y then y # insert_back lt x ys else x # y # ys)"

definition insert_sorted :: "('a \<Rightarrow> 'a \<Rightarrow> bool) \<Rightarrow> 'a list \<Rightarrow> 'a \<Rightarrow> 'a list" where
  "insert_sorted lt ys x = rev (insert_back lt x (rev ys))"

section \<open>\<^verbatim>\<open>strconv.ParseFloat\<close> on plain decimal texts\<close>

text \<open>
  The theorems on the ranker hold for every \<open>ParseFloat\<close>. To run the ranker on a
  concrete text, \<open>ParseFloat_decimal\<close> gives what \<^verbatim>\<open>strconv.ParseFloat(s, 64)\<close> returns
  on the texts used here: \<^verbatim>\<open>NaN\<close>, a signed \<^verbatim>\<open>Inf\<close> or \<^verbatim>\<open>Infinity\<close> (letters of
  either case), and an optional sign followed by decimal digits with at most one point
  and at least one digit. The value is the exact decimal (no rounding); a magnitude
  that rounds to infinity is the library's range error. Texts with an exponent, a
  hexadecimal mantissa or underscores, which the library also reads, are outside this
  definition: it answers \<open>None\<close> for them and is not used on them.
\<close>

definition ascii_lower :: "char \<Rightarrow> char" where
  "ascii_lower c =
     (if 65 \<le> (of_char c :: int) \<and> (of_char c :: int) \<le> 90
      then char_of ((of_char c :: int) + 32) else c)"

definition special_float :: "string \<Rightarrow> float64 option" where
  "special_float l =
     (if l = ''nan'' then Some NaN
      else if l = ''inf'' \<or> l = ''+inf'' \<or> l = ''infinity'' \<or> l = ''+infinity'' then Some PInf
      else if l = ''-inf'' \<or> l = ''-infinity'' then Some NInf
      else None)"

text \<open>The least magnitude that rounds to infinity, \<open>2^1024 - 2^970\<close>.\<close>

definition float64_overflow :: int where
  "float64_overflow = 179769313486231580793728971405303415079934132710037826936173778980444968292764750946649017977587207096330286416692887910946555547851940402630657488671505820681908902000708383676273854845817711531764475730270069855571366959622842914819860834936475292719074168444365510704342711559699508093042880177904174497792"

text \<open>
  The value of the digits \<open>ip\<close> before and \<open>fp\<close> after the point. The magnitude is
  below the integer \<open>float64_overflow\<close> exactly when its integer part is.
\<close>

definition decimal_float :: "bool \<Rightarrow> string \<Rightarrow> string \<Rightarrow> float64 option" where
  "decimal_float neg ip fp =
     (if \<not> list_all is_digit fp \<or> ip @ fp = [] \<or> float64_overflow \<le> dec_value ip then None
      else Some (Fin ((if neg then - 1 else 1) *
             (real_of_int (dec_value ip) + real_of_int (dec_value fp) / 10 ^ length fp))))"

definition unsigned_decimal :: "bool \<Rightarrow> string \<Rightarrow> float64 option" where
  "unsigned_decimal neg m =
     (case dropWhile is_digit m of
        [] \<Rightarrow> decimal_float neg (takeWhile is_digit m) []
      | c # fp \<Rightarrow>
          if c = CHR ''.'' then decimal_float neg (takeWhile is_digit m) fp else None)"

definition ParseFloat_decimal :: "string \<Rightarrow> float64 option" where
  "ParseFloat_decimal s =
     (case special_float (map ascii_lower s) of
        Some f \<Rightarrow> Some f
      | None \<Rightarrow>
          (case s of
             [] \<Rightarrow> None
           | c # m \<Rightarrow>
               if c = CHR ''-'' then unsigned_decimal True m
               else if c = CHR ''+'' then unsigned_decimal False m
               else unsigned_decimal False s))"

section \<open>Notions used to state the properties\<close>




text \<open>The comparison \<^verbatim>\<open>a >= b\<close> of two float64 values, false when either is NaN.\<close>

fun fge :: "float64 \<Rightarrow> float64 \<Rightarrow> bool" where
  "fge (Fin x) (Fin y) = (y \<le> x)"
| "fge PInf (Fin y) = True"
| "fge PInf PInf = True"
| "fge PInf NInf = True"
| "fge (Fin x) NInf = True"
| "fge NInf NInf = True"
| "fge a b = False"

text \<open>
  The text that is handed to \<open>ParseFloat\<close> for a line with enough fields: the third
  field of a line of \<^verbatim>\<open>ps\<close>, the eighth of a line of \<^verbatim>\<open>tasklist\<close> without its
  quotes and its suffix.
\<close>

definition cpu_field :: "string \<Rightarrow> string \<Rightarrow> string option" where
  "cpu_field os line =
     (if os = ''windows'' then
        (if length (Split line (CHR '','')) < 8 then None
         else Some (TrimSuffix (Trim (Split line (CHR '','') ! 7) (CHR 0x22)) '' K''))
      else
        (if length (Fields line) < 11 then None else Some (Fields line ! 2)))"

text \<open>
  The sample that one line gives, or \<open>None\<close> for a line that fails to parse: too few
  fields, a CPU text that \<open>ParseFloat\<close> rejects, or a PID text that \<open>Atoi\<close> rejects.
\<close>

definition ps_row :: "(string \<Rightarrow> float64 option) \<Rightarrow> string \<Rightarrow> ProcessInfo option" where
  "ps_row ParseFloat line =
     (if length (Fields line) < 11 then None
      else case ParseFloat (Fields line ! 2) of
        None \<Rightarrow> None
      | Some cpu \<Rightarrow>
          (case Atoi (Fields line ! 1) of
             None \<Rightarrow> None
           | Some pid \<Rightarrow> Some \<lparr>PID = pid, CPU = cpu, Name = Fields line ! 10\<rparr>))"

definition tasklist_row :: "(string \<Rightarrow> float64 option) \<Rightarrow> string \<Rightarrow> ProcessInfo option" where
  "tasklist_row ParseFloat line =
     (if length (Split line (CHR '','')) < 8 then None
      else case ParseFloat (TrimSuffix (Trim (Split line (CHR '','') ! 7) (CHR 0x22)) '' K'') of
        None \<Rightarrow> None
      | Some cpu \<Rightarrow>
          (case Atoi (Trim (Split line (CHR '','') ! 1) (CHR 0x22)) of
             None \<Rightarrow> None
           | Some pid \<Rightarrow>
               Some \<lparr>PID = pid, CPU = cpu,
                     Name = Trim (Split line (CHR '','') ! 0) (CHR 0x22)\<rparr>))"

text \<open>
  The samples of the rows of a text that parse, in the order of the rows: every line
  but the first for \<^verbatim>\<open>ps\<close>, every line for \<^verbatim>\<open>tasklist\<close>, none for another system.
\<close>

definition parsed_rows :: "(string \<Rightarrow> float64 option) \<Rightarrow> string \<Rightarrow> string \<Rightarrow> ProcessInfo list" where
  "parsed_rows ParseFloat output os =
     (if os = ''darwin'' \<or> os = ''linux''
        then List.map_filter (ps_row ParseFloat) (drop 1 (Split output (CHR 0x0A)))
      else if os = ''windows''
        then List.map_filter (tasklist_row ParseFloat) (Split output (CHR 0x0A))
      else [])"

text \<open>
  A text in the form of the output of \<^verbatim>\<open>ps aux\<close>: a header, three rows that parse and
  three that do not (two fields only, a PID that is no number, a CPU value that is no
  number).
\<close>

definition ps_example :: string where
  "ps_example =
     ''USER PID %CPU %MEM VSZ RSS TTY STAT START TIME COMMAND'' @ [CHR 0x0A] @
     ''root 1 0.5 0.1 1000 500 ? Ss 10:00 0:01 init'' @ [CHR 0x0A] @
     ''bad row'' @ [CHR 0x0A] @
     ''www 20 12.5 1.0 2000 900 ? S 10:01 0:09 nginx'' @ [CHR 0x0A] @
     ''db x7 3.0 2.0 3000 800 ? S 10:02 0:05 postgres'' @ [CHR 0x0A] @
     ''db 30 abc 2.0 3000 800 ? S 10:02 0:05 postgres'' @ [CHR 0x0A] @
     ''db 31 3.0 2.0 3000 800 ? S 10:02 0:05 postgres'' @ [CHR 0x0A]"

text \<open>Fifteen processes with distinct CPU values, 7, 14, 5, 12 and so on.\<close>

definition fifteen_processes :: "Process list" where
  "fifteen_processes =
     map (\<lambda>i. (i, Inr (Fin (real_of_int ((i * 7) mod 16))), Inr ''worker'')) [1..15]"

section \<open>Lemmas on the sampler\<close>

lemma is_finite_Fin: "is_finite a \<Longrightarrow> \<exists>x. a = Fin x \<and> the_real a = x"
  by (cases a) simp_all




lemma executeCheck_returns:
  assumes "\<bar>Interval plugin\<bar> \<le> 9223372036"
  shows "executeCheck plugin (Inr (a # as)) (Inr (b # bs)) (ps, None) =
    (let diff = fsub (total b) (total a);
         used = fsub (Fin 100) (pct (Idle b) (Idle a) diff);
         report = (\<lambda>w. \<lparr>status_word = w, usedPct = used,
            cpu_idle = pct (Idle b) (Idle a) diff,
            cpu_system = pct (System b) (System a) diff,
            cpu_user = pct (User b) (User a) diff,
            cpu_nice = pct (Nice b) (Nice a) diff,
            cpu_iowait = pct (Iowait b) (Iowait a) diff,
            cpu_irq = pct (Irq b) (Irq a) diff,
            cpu_softirq = pct (Softirq b) (Softirq a) diff,
            cpu_steal = pct (Steal b) (Steal a) diff,
            cpu_guest = pct (Guest b) (Guest a) diff,
            cpu_guestnice = pct (GuestNice b) (GuestNice a) diff,
            processInfo = ps\<rparr>)
     in if fgt used (Critical plugin) then Returns (CheckStateCritical, None, Some (report ''Critical''))
        else if fgt used (Warning plugin) then Returns (CheckStateWarning, None, Some (report ''Warning''))
        else Returns (CheckStateOK, None, Some (report ''OK'')))"
  using assms by (simp add: executeCheck_def ParseDuration_seconds_def Let_def)




lemma executeCheck_error_origin:
  assumes "executeCheck plugin times1 times2 listing = Returns (st, Some e, r)"
  shows "(\<exists>e'. times1 = Inl e' \<and> e = CPUTimingsError e') \<or>
         (\<exists>e'. ParseDuration_seconds (Interval plugin) = Inl e' \<and> e = DurationError e') \<or>
         (\<exists>e'. times2 = Inl e' \<and> e = CPUTimingsError e') \<or>
         (\<exists>e'. snd listing = Some e' \<and> e = TopProcessesError e')"
  using assms
  by (cases listing)
    (auto simp: executeCheck_def Let_def split: sum.splits list.splits option.splits if_splits)

section \<open>Lemmas on insertion sort\<close>

lemma float64_overflow_eq: "float64_overflow = 2 ^ 1024 - 2 ^ 970"
  by (simp add: float64_overflow_def)

lemma swap_adjacent:
  "swap (pre @ ys @ y # x # zs) (Suc (length pre + length ys)) (length pre + length ys)
     = pre @ ys @ x # y # zs"
  by (simp add: swap_def list_update_append nth_append)

lemma sift_left_app:
  "sift_left lt (pre @ ys @ x # zs) (length pre) (length pre + length ys)
     = pre @ rev (insert_back lt x (rev ys)) @ zs"
proof (induction ys arbitrary: zs rule: rev_induct)
  case Nil
  show ?case by (subst sift_left.simps) simp
next
  case (snoc y ys)
  have nj: "(pre @ (ys @ [y]) @ x # zs) ! (length pre + length (ys @ [y])) = x"
    by (simp add: nth_append)
  have nj1: "(pre @ (ys @ [y]) @ x # zs) ! (length pre + length (ys @ [y]) - 1) = y"
    by (simp add: nth_append)
  show ?case
  proof (cases "lt x y")
    case True
    have "sift_left lt (pre @ (ys @ [y]) @ x # zs) (length pre) (length pre + length (ys @ [y]))
        = sift_left lt (swap (pre @ (ys @ [y]) @ x # zs) (length pre + length (ys @ [y]))
            (length pre + length (ys @ [y]) - 1)) (length pre) (length pre + length (ys @ [y]) - 1)"
      by (subst sift_left.simps) (simp only: nj nj1 True, simp)
    also have "swap (pre @ (ys @ [y]) @ x # zs) (length pre + length (ys @ [y]))
            (length pre + length (ys @ [y]) - 1) = pre @ ys @ x # y # zs"
      using swap_adjacent[of pre ys y x zs] by simp
    also have "length pre + length (ys @ [y]) - 1 = length pre + length ys" by simp
    also have "sift_left lt (pre @ ys @ x # y # zs) (length pre) (length pre + length ys)
         = pre @ rev (insert_back lt x (rev ys)) @ y # zs"
      by (rule snoc.IH)
    finally show ?thesis using True by simp
  next
    case False
    have "sift_left lt (pre @ (ys @ [y]) @ x # zs) (length pre) (length pre + length (ys @ [y]))
        = pre @ (ys @ [y]) @ x # zs"
      by (subst sift_left.simps) (simp only: nj nj1 False, simp)
    then show ?thesis using False by simp
  qed
qed

lemma length_insert_back [simp]: "length (insert_back lt x ys) = Suc (length ys)"
  by (induction ys) auto

lemma mset_insert_back [simp]: "mset (insert_back lt x ys) = add_mset x (mset ys)"
  by (induction ys) auto

lemma set_insert_back [simp]: "set (insert_back lt x ys) = insert x (set ys)"
  by (induction ys) auto

lemma length_insert_sorted [simp]: "length (insert_sorted lt ys x) = Suc (length ys)"
  by (simp add: insert_sorted_def)

lemma set_insert_sorted [simp]: "set (insert_sorted lt ys x) = insert x (set ys)"
  by (simp add: insert_sorted_def)

lemma mset_insert_sorted [simp]: "mset (insert_sorted lt ys x) = add_mset x (mset ys)"
  by (simp add: insert_sorted_def)

lemma insertion_loop_app:
  "insertion_loop lt (pre @ ys @ us @ post) (length pre) (length pre + length ys)
      (length pre + length ys + length us)
     = pre @ foldl (insert_sorted lt) ys us @ post"
proof (induction us arbitrary: ys)
  case Nil
  show ?case by (subst insertion_loop.simps) simp
next
  case (Cons u us)
  have "insertion_loop lt (pre @ ys @ (u # us) @ post) (length pre) (length pre + length ys)
      (length pre + length ys + length (u # us))
    = insertion_loop lt (sift_left lt (pre @ ys @ u # (us @ post)) (length pre)
          (length pre + length ys)) (length pre) (length pre + length ys + 1)
        (length pre + length ys + length (u # us))"
    by (subst insertion_loop.simps) simp
  also have "sift_left lt (pre @ ys @ u # (us @ post)) (length pre) (length pre + length ys)
      = pre @ insert_sorted lt ys u @ us @ post"
    unfolding insert_sorted_def by (rule sift_left_app)
  also have "insertion_loop lt (pre @ insert_sorted lt ys u @ us @ post) (length pre)
        (length pre + length ys + 1) (length pre + length ys + length (u # us))
      = pre @ foldl (insert_sorted lt) (insert_sorted lt ys u) us @ post"
    using Cons.IH[of "insert_sorted lt ys u"] by simp
  finally show ?case by simp
qed

lemma Slice_insertion_Nil: "Slice_insertion lt [] = []"
  unfolding Slice_insertion_def insertionSort_func_def
  by (subst insertion_loop.simps) simp

lemma Slice_insertion_Cons: "Slice_insertion lt (x # us) = foldl (insert_sorted lt) [x] us"
  using insertion_loop_app[of lt "[]" "[x]" us "[]"]
  by (simp add: Slice_insertion_def insertionSort_func_def)

lemma mset_foldl_insert_sorted:
  "mset (foldl (insert_sorted lt) ys us) = mset ys + mset us"
  by (induction us arbitrary: ys) simp_all

lemma sorted_insert_back:
  assumes "transitive_ordering lt A" "x \<in> A" "set ys \<subseteq> A"
    and "sorted_wrt (\<lambda>p q. \<not> lt p q) ys"
  shows "sorted_wrt (\<lambda>p q. \<not> lt p q) (insert_back lt x ys)"
  using assms(3,4)
proof (induction ys)
  case Nil
  show ?case by simp
next
  case (Cons y ys)
  have yA: "y \<in> A" and ysA: "set ys \<subseteq> A" using Cons.prems by auto
  show ?case
  proof (cases "lt x y")
    case True
    have "\<not> lt y x"
      using assms(1,2) yA True unfolding transitive_ordering_def by blast
    then show ?thesis using True Cons by auto
  next
    case False
    have "\<forall>q\<in>set ys. \<not> lt x q"
    proof
      fix q assume q: "q \<in> set ys"
      then have "\<not> lt y q" using Cons.prems by auto
      with False show "\<not> lt x q"
        using assms(1,2) yA ysA q unfolding transitive_ordering_def by blast
    qed
    then show ?thesis using False Cons.prems by auto
  qed
qed

lemma sorted_insert_sorted:
  assumes "transitive_ordering lt A" "x \<in> A" "set ys \<subseteq> A"
    and "sorted_wrt (\<lambda>p q. \<not> lt q p) ys"
  shows "sorted_wrt (\<lambda>p q. \<not> lt q p) (insert_sorted lt ys x)"
proof -
  have "sorted_wrt (\<lambda>p q. \<not> lt p q) (rev ys)"
    using assms(4) by (simp add: sorted_wrt_rev)
  then have "sorted_wrt (\<lambda>p q. \<not> lt p q) (insert_back lt x (rev ys))"
    using sorted_insert_back[OF assms(1,2), of "rev ys"] assms(3) by simp
  then show ?thesis
    unfolding insert_sorted_def by (simp add: sorted_wrt_rev)
qed

lemma sorted_foldl_insert_sorted:
  assumes "transitive_ordering lt A"
  shows "set ys \<subseteq> A \<Longrightarrow> set us \<subseteq> A \<Longrightarrow> sorted_wrt (\<lambda>p q. \<not> lt q p) ys
    \<Longrightarrow> sorted_wrt (\<lambda>p q. \<not> lt q p) (foldl (insert_sorted lt) ys us)"
proof (induction us arbitrary: ys)
  case Nil
  then show ?case by simp
next
  case (Cons u us)
  have "sorted_wrt (\<lambda>p q. \<not> lt q p) (insert_sorted lt ys u)"
    using sorted_insert_sorted[OF assms, of u ys] Cons.prems by simp
  moreover have "set (insert_sorted lt ys u) \<subseteq> A"
    using Cons.prems by simp
  ultimately show ?case using Cons.IH[of "insert_sorted lt ys u"] Cons.prems by simp
qed

lemma Slice_insertion_contract: "sort_Slice_contract Slice_insertion"
  unfolding sort_Slice_contract_def
proof (intro allI conjI impI)
  fix lt :: "'a \<Rightarrow> 'a \<Rightarrow> bool" and x :: "'a list"
  show "mset (Slice_insertion lt x) = mset x"
    by (cases x) (simp_all add: Slice_insertion_Nil Slice_insertion_Cons mset_foldl_insert_sorted)
  assume tr: "transitive_ordering lt (set x)"
  show "sorted_wrt (\<lambda>p q. \<not> lt q p) (Slice_insertion lt x)"
  proof (cases x)
    case Nil
    then show ?thesis by (simp add: Slice_insertion_Nil)
  next
    case (Cons a us)
    have "sorted_wrt (\<lambda>p q. \<not> lt q p) (foldl (insert_sorted lt) [a] us)"
      by (rule sorted_foldl_insert_sorted[OF tr]) (simp_all add: Cons subset_insertI)
    then show ?thesis by (simp add: Cons Slice_insertion_Cons)
  qed
qed

lemma sort_Slice_short:
  "length x \<le> 12 \<Longrightarrow> sort_Slice lt x = Slice_insertion lt x"
  unfolding sort_Slice_def Slice_insertion_def Let_def
  by (subst pdqsort_func.simps) simp

section \<open>Properties of the check\<close>

text \<open>
  C1, as the code has it. \<^verbatim>\<open>executeCheck\<close> never looks at the sign of the total delta:
  for every pair of snapshots, whatever the delta, it goes on to divide and, when the
  duration parses and the process listing succeeds, returns a status with a nil error.
  An error it returns is the error of a call of \<^verbatim>\<open>cpu.Times\<close>, of the duration or of
  the process listing, wrapped; none comes from the delta.
\<close>

theorem executeCheck_no_delta_guard:
  "(\<bar>Interval plugin\<bar> \<le> 9223372036 \<longrightarrow>
      (\<exists>st report.
         executeCheck plugin (Inr (a # as)) (Inr (b # bs)) (ps, None)
           = Returns (st, None, Some report))) \<and>
   (executeCheck plugin times1 times2 listing = Returns (st', Some e, r) \<longrightarrow>
      (\<exists>e'. times1 = Inl e' \<and> e = CPUTimingsError e') \<or>
      (\<exists>e'. ParseDuration_seconds (Interval plugin) = Inl e' \<and> e = DurationError e') \<or>
      (\<exists>e'. times2 = Inl e' \<and> e = CPUTimingsError e') \<or>
      (\<exists>e'. snd listing = Some e' \<and> e = TopProcessesError e'))"
proof (intro conjI impI)
  assume dur: "\<bar>Interval plugin\<bar> \<le> 9223372036"
  show "\<exists>st report.
         executeCheck plugin (Inr (a # as)) (Inr (b # bs)) (ps, None)
           = Returns (st, None, Some report)"
    unfolding executeCheck_returns[OF dur] Let_def by simp
next
  assume "executeCheck plugin times1 times2 listing = Returns (st', Some e, r)"
  then show "(\<exists>e'. times1 = Inl e' \<and> e = CPUTimingsError e') \<or>
      (\<exists>e'. ParseDuration_seconds (Interval plugin) = Inl e' \<and> e = DurationError e') \<or>
      (\<exists>e'. times2 = Inl e' \<and> e = CPUTimingsError e') \<or>
      (\<exists>e'. snd listing = Some e' \<and> e = TopProcessesError e')"
    by (rule executeCheck_error_origin)
qed

text \<open>
  The theorem at a pair of snapshots where the second precedes the first (the total
  delta is negative).
\<close>

theorem executeCheck_no_delta_guard_witness:
  "\<bar>Interval \<lparr>Critical = Fin 90, Warning = Fin 75, Interval = 2\<rparr>\<bar> \<le> 9223372036 \<and>
   (\<exists>st report. executeCheck \<lparr>Critical = Fin 90, Warning = Fin 75, Interval = 2\<rparr>
     (Inr [\<lparr>User = Fin 100, System = Fin 50, Idle = Fin 800, Nice = Fin 0,
        Iowait = Fin 10, Irq = Fin 0, Softirq = Fin 5, Steal = Fin 0, Guest = Fin 0,
        GuestNice = Fin 0\<rparr>])
     (Inr [\<lparr>User = Fin 40, System = Fin 50, Idle = Fin 700, Nice = Fin 0,
        Iowait = Fin 10, Irq = Fin 0, Softirq = Fin 5, Steal = Fin 0, Guest = Fin 0,
        GuestNice = Fin 0\<rparr>])
     ([], None) = Returns (st, None, Some report))"
  using executeCheck_no_delta_guard[of "\<lparr>Critical = Fin 90, Warning = Fin 75, Interval = 2\<rparr>"]
  by simp

text \<open>
  C1 as stated fails: with two identical snapshots the total delta is 0, and the check
  returns OK with a nil error, every percentage being NaN.
\<close>

theorem executeCheck_no_delta_guard_counterexample:
  "fsub (total \<lparr>User = Fin 100, System = Fin 50, Idle = Fin 800, Nice = Fin 0,
        Iowait = Fin 10, Irq = Fin 0, Softirq = Fin 5, Steal = Fin 0, Guest = Fin 0,
        GuestNice = Fin 0\<rparr>)
      (total \<lparr>User = Fin 100, System = Fin 50, Idle = Fin 800, Nice = Fin 0,
        Iowait = Fin 10, Irq = Fin 0, Softirq = Fin 5, Steal = Fin 0, Guest = Fin 0,
        GuestNice = Fin 0\<rparr>) = Fin 0 \<and>
   executeCheck \<lparr>Critical = Fin 90, Warning = Fin 75, Interval = 2\<rparr>
     (Inr [\<lparr>User = Fin 100, System = Fin 50, Idle = Fin 800, Nice = Fin 0,
        Iowait = Fin 10, Irq = Fin 0, Softirq = Fin 5, Steal = Fin 0, Guest = Fin 0,
        GuestNice = Fin 0\<rparr>])
     (Inr [\<lparr>User = Fin 100, System = Fin 50, Idle = Fin 800, Nice = Fin 0,
        Iowait = Fin 10, Irq = Fin 0, Softirq = Fin 5, Steal = Fin 0, Guest = Fin 0,
        GuestNice = Fin 0\<rparr>])
     ([], None)
   = Returns (CheckStateOK, None, Some \<lparr>status_word = ''OK'', usedPct = NaN,
        cpu_idle = NaN, cpu_system = NaN, cpu_user = NaN, cpu_nice = NaN,
        cpu_iowait = NaN, cpu_irq = NaN, cpu_softirq = NaN, cpu_steal = NaN,
        cpu_guest = NaN, cpu_guestnice = NaN, processInfo = []\<rparr>)"
  by (simp add: executeCheck_def ParseDuration_seconds_def total_def pct_def fsub_def)



text \<open>
  C4: with both snapshots and the process list at hand, the state returned is CRITICAL
  if the used percentage exceeds the critical threshold, else WARNING if it exceeds the
  warning threshold, else OK; the used percentage is 100 minus the idle percentage.
\<close>

theorem executeCheck_thresholds:
  assumes dur: "\<bar>Interval plugin\<bar> \<le> 9223372036"
  shows "\<exists>report.
      executeCheck plugin (Inr (a # as)) (Inr (b # bs)) (ps, None)
        = Returns (if fgt (usedPct report) (Critical plugin) then CheckStateCritical
                   else if fgt (usedPct report) (Warning plugin) then CheckStateWarning
                   else CheckStateOK, None, Some report) \<and>
      usedPct report = fsub (Fin 100) (pct (Idle b) (Idle a) (fsub (total b) (total a)))"
  unfolding executeCheck_returns[OF dur] Let_def
  by simp

theorem executeCheck_thresholds_witness:
  "\<exists>report. executeCheck \<lparr>Critical = Fin 90, Warning = Fin 75, Interval = 2\<rparr>
     (Inr [\<lparr>User = Fin 100, System = Fin 50, Idle = Fin 800, Nice = Fin 0,
        Iowait = Fin 10, Irq = Fin 0, Softirq = Fin 5, Steal = Fin 0, Guest = Fin 0,
        GuestNice = Fin 0\<rparr>])
     (Inr [\<lparr>User = Fin 160, System = Fin 65, Idle = Fin 820, Nice = Fin 0,
        Iowait = Fin 14, Irq = Fin 0, Softirq = Fin 6, Steal = Fin 0, Guest = Fin 0,
        GuestNice = Fin 0\<rparr>])
     ([], None) = Returns (CheckStateWarning, None, Some report) \<and> usedPct report = Fin 80"
proof -
  have dur: "\<bar>Interval \<lparr>Critical = Fin 90, Warning = Fin 75, Interval = 2\<rparr>\<bar> \<le> 9223372036"
    by simp
  from executeCheck_thresholds[OF dur, of
      "\<lparr>User = Fin 100, System = Fin 50, Idle = Fin 800, Nice = Fin 0,
        Iowait = Fin 10, Irq = Fin 0, Softirq = Fin 5, Steal = Fin 0, Guest = Fin 0,
        GuestNice = Fin 0\<rparr>" "[]"
      "\<lparr>User = Fin 160, System = Fin 65, Idle = Fin 820, Nice = Fin 0,
        Iowait = Fin 14, Irq = Fin 0, Softirq = Fin 6, Steal = Fin 0, Guest = Fin 0,
        GuestNice = Fin 0\<rparr>" "[]" "[]"]
  obtain report where
    ex: "executeCheck \<lparr>Critical = Fin 90, Warning = Fin 75, Interval = 2\<rparr>
     (Inr [\<lparr>User = Fin 100, System = Fin 50, Idle = Fin 800, Nice = Fin 0,
        Iowait = Fin 10, Irq = Fin 0, Softirq = Fin 5, Steal = Fin 0, Guest = Fin 0,
        GuestNice = Fin 0\<rparr>])
     (Inr [\<lparr>User = Fin 160, System = Fin 65, Idle = Fin 820, Nice = Fin 0,
        Iowait = Fin 14, Irq = Fin 0, Softirq = Fin 6, Steal = Fin 0, Guest = Fin 0,
        GuestNice = Fin 0\<rparr>])
     ([], None) = Returns (if fgt (usedPct report) (Critical \<lparr>Critical = Fin 90, Warning = Fin 75, Interval = 2\<rparr>) then CheckStateCritical
                   else if fgt (usedPct report) (Warning \<lparr>Critical = Fin 90, Warning = Fin 75, Interval = 2\<rparr>) then CheckStateWarning
                   else CheckStateOK, None, Some report)"
    and u: "usedPct report = fsub (Fin 100) (pct (Idle (\<lparr>User = Fin 160, System = Fin 65, Idle = Fin 820, Nice = Fin 0,
        Iowait = Fin 14, Irq = Fin 0, Softirq = Fin 6, Steal = Fin 0, Guest = Fin 0,
        GuestNice = Fin 0\<rparr>)) (Idle (\<lparr>User = Fin 100, System = Fin 50, Idle = Fin 800, Nice = Fin 0,
        Iowait = Fin 10, Irq = Fin 0, Softirq = Fin 5, Steal = Fin 0, Guest = Fin 0,
        GuestNice = Fin 0\<rparr>))
         (fsub (total (\<lparr>User = Fin 160, System = Fin 65, Idle = Fin 820, Nice = Fin 0,
        Iowait = Fin 14, Irq = Fin 0, Softirq = Fin 6, Steal = Fin 0, Guest = Fin 0,
        GuestNice = Fin 0\<rparr>)) (total (\<lparr>User = Fin 100, System = Fin 50, Idle = Fin 800, Nice = Fin 0,
        Iowait = Fin 10, Irq = Fin 0, Softirq = Fin 5, Steal = Fin 0, Guest = Fin 0,
        GuestNice = Fin 0\<rparr>))))"
    by blast
  have u80: "usedPct report = Fin 80"
    unfolding u by (simp add: total_def pct_def fsub_def)
  show ?thesis
    using ex u80 by (intro exI[of _ report]) simp
qed



text \<open>
  C5, as the code has it. \<^verbatim>\<open>checkArgs\<close> returns the WARNING state with an error exactly
  when the critical threshold equals 0, the warning threshold equals 0, the warning
  threshold is greater than the critical one, or the interval equals 0; in every other
  case, negative values included, it returns OK with no error. It reads the
  configuration only, so no measurement precedes it.
\<close>

theorem checkArgs_rejects:
  "(feq (Critical plugin) (Fin 0) \<or> feq (Warning plugin) (Fin 0) \<or>
    fgt (Warning plugin) (Critical plugin) \<or> Interval plugin = 0
      \<longrightarrow> (\<exists>e. checkArgs plugin = (CheckStateWarning, Some e))) \<and>
   (\<not> (feq (Critical plugin) (Fin 0) \<or> feq (Warning plugin) (Fin 0) \<or>
    fgt (Warning plugin) (Critical plugin) \<or> Interval plugin = 0)
      \<longrightarrow> checkArgs plugin = (CheckStateOK, None))"
  by (simp add: checkArgs_def)

text \<open>
  C5 as stated fails: negative thresholds and a negative interval are accepted.
\<close>

theorem checkArgs_rejects_counterexample:
  "checkArgs \<lparr>Critical = Fin (- 90), Warning = Fin (- 95), Interval = - 2\<rparr>
     = (CheckStateOK, None)"
  by (simp add: checkArgs_def)

theorem checkArgs_rejects_witness:
  "fgt (Warning \<lparr>Critical = Fin 80, Warning = Fin 85, Interval = 2\<rparr>)
       (Critical \<lparr>Critical = Fin 80, Warning = Fin 85, Interval = 2\<rparr>) \<and>
   (\<exists>e. checkArgs \<lparr>Critical = Fin 80, Warning = Fin 85, Interval = 2\<rparr>
          = (CheckStateWarning, Some e)) \<and>
   checkArgs \<lparr>Critical = Fin 90, Warning = Fin 75, Interval = 2\<rparr> = (CheckStateOK, None)"
  using checkArgs_rejects[of "\<lparr>Critical = Fin 80, Warning = Fin 85, Interval = 2\<rparr>"]
    checkArgs_rejects[of "\<lparr>Critical = Fin 90, Warning = Fin 75, Interval = 2\<rparr>"]
  by simp

section \<open>Lemmas on the ranker\<close>


lemma ps_loop_map_filter: "ps_loop ParseFloat lines = List.map_filter (ps_row ParseFloat) lines"
  by (induction lines)
    (simp_all add: List.map_filter_simps ps_row_def Let_def split: option.splits)

lemma tasklist_loop_map_filter:
  "tasklist_loop ParseFloat lines = List.map_filter (tasklist_row ParseFloat) lines"
  by (induction lines)
    (simp_all add: List.map_filter_simps tasklist_row_def Let_def split: option.splits)

lemma parseProcessOutput_eq:
  "parseProcessOutput ParseFloat Slice output os
     = (take 10 (Slice cpu_greater (parsed_rows ParseFloat output os)), None)"
  by (simp add: parseProcessOutput_def parsed_rows_def Let_def ps_loop_map_filter
      tasklist_loop_map_filter)

lemma getTopCPUProcesses_gopsutil_eq:
  "getTopCPUProcesses_gopsutil Slice (Inr ps)
     = (take 10 (Slice cpu_greater (process_loop ps)), None)"
  by (simp add: getTopCPUProcesses_gopsutil_def Let_def)

lemma fgt_irrefl: "\<not> fgt a a"
  by (cases a) simp_all

lemma fgt_trans: "fgt a b \<Longrightarrow> fgt b c \<Longrightarrow> fgt a c"
  by (cases a; cases b; cases c) simp_all

lemma fgt_neg_trans: "a \<noteq> NaN \<Longrightarrow> b \<noteq> NaN \<Longrightarrow> c \<noteq> NaN
    \<Longrightarrow> \<not> fgt a b \<Longrightarrow> \<not> fgt b c \<Longrightarrow> \<not> fgt a c"
  by (cases a; cases b; cases c) simp_all

lemma not_fgt_fge: "a \<noteq> NaN \<Longrightarrow> b \<noteq> NaN \<Longrightarrow> \<not> fgt b a \<longleftrightarrow> fge a b"
  by (cases a; cases b) auto

lemma cpu_greater_transitive_ordering:
  assumes "\<forall>p\<in>A. CPU p \<noteq> NaN"
  shows "transitive_ordering cpu_greater A"
  unfolding transitive_ordering_def cpu_greater_def
  using assms fgt_irrefl fgt_trans fgt_neg_trans by blast

lemma contract_mset: "sort_Slice_contract Slice \<Longrightarrow> mset (Slice lt x) = mset x"
  by (simp add: sort_Slice_contract_def)

lemma contract_set: "sort_Slice_contract Slice \<Longrightarrow> set (Slice lt x) = set x"
  using contract_mset[of Slice lt x] by (metis set_mset_mset)

lemma contract_length: "sort_Slice_contract Slice \<Longrightarrow> length (Slice lt x) = length x"
  using contract_mset[of Slice lt x] by (metis size_mset)

lemma contract_sorted:
  assumes "sort_Slice_contract Slice" and "\<forall>p\<in>set x. CPU p \<noteq> NaN"
  shows "sorted_wrt (\<lambda>p q. fge (CPU p) (CPU q)) (Slice cpu_greater x)"
proof -
  have "sorted_wrt (\<lambda>p q. \<not> cpu_greater q p) (Slice cpu_greater x)"
    using assms cpu_greater_transitive_ordering[of "set x"]
    by (simp add: sort_Slice_contract_def)
  moreover have "\<And>p q. p \<in> set (Slice cpu_greater x) \<Longrightarrow> q \<in> set (Slice cpu_greater x)
      \<Longrightarrow> \<not> cpu_greater q p \<Longrightarrow> fge (CPU p) (CPU q)"
    using assms by (simp add: contract_set cpu_greater_def not_fgt_fge)
  ultimately show ?thesis
    by (rule sorted_wrt_mono_rel[rotated]) auto
qed

lemma sorted_wrt_take_drop:
  assumes "sorted_wrt R xs"
  shows "\<forall>p\<in>set (take n xs). \<forall>q\<in>set (drop n xs). R p q"
proof -
  have "sorted_wrt R (take n xs @ drop n xs)" using assms by simp
  then show ?thesis unfolding sorted_wrt_append by blast
qed

lemma ranked_properties:
  assumes c: "sort_Slice_contract Slice" and n: "\<forall>p\<in>set x. CPU p \<noteq> NaN"
  shows "sorted_wrt (\<lambda>p q. fge (CPU p) (CPU q)) (take 10 (Slice cpu_greater x))"
    and "length (take 10 (Slice cpu_greater x)) \<le> 10"
    and "mset (take 10 (Slice cpu_greater x)) \<subseteq># mset x"
    and "\<forall>p\<in>set (take 10 (Slice cpu_greater x)). \<forall>q\<in>set (drop 10 (Slice cpu_greater x)).
           fge (CPU p) (CPU q)"
proof -
  note s = contract_sorted[OF c n]
  show "sorted_wrt (\<lambda>p q. fge (CPU p) (CPU q)) (take 10 (Slice cpu_greater x))"
    using s by (rule sorted_wrt_take)
  show "length (take 10 (Slice cpu_greater x)) \<le> 10" by simp
  have "mset (take 10 (Slice cpu_greater x)) \<subseteq># mset (Slice cpu_greater x)"
    by (metis append_take_drop_id mset_append mset_subset_eq_add_left)
  then show "mset (take 10 (Slice cpu_greater x)) \<subseteq># mset x"
    by (simp add: contract_mset[OF c])
  show "\<forall>p\<in>set (take 10 (Slice cpu_greater x)). \<forall>q\<in>set (drop 10 (Slice cpu_greater x)).
           fge (CPU p) (CPU q)"
    using s by (rule sorted_wrt_take_drop)
qed

lemma map_filter_mem:
  "p \<in> set (List.map_filter f xs) \<longleftrightarrow> (\<exists>x\<in>set xs. f x = Some p)"
  by (induction xs) (auto simp: List.map_filter_simps split: option.splits)

lemma parsed_rows_cpu:
  assumes "p \<in> set (parsed_rows ParseFloat output os)"
  shows "\<exists>line\<in>set (Split output (CHR 0x0A)). \<exists>f.
           cpu_field os line = Some f \<and> ParseFloat f = Some (CPU p)"
proof -
  consider (ps) "os = ''darwin'' \<or> os = ''linux''" | (win) "os = ''windows''"
    | (other) "os \<noteq> ''darwin''" "os \<noteq> ''linux''" "os \<noteq> ''windows''" by blast
  then show ?thesis
  proof cases
    case ps
    then have "os \<noteq> ''windows''" by auto
    from ps assms obtain line where l: "line \<in> set (drop 1 (Split output (CHR 0x0A)))"
      and r: "ps_row ParseFloat line = Some p"
      by (auto simp: parsed_rows_def map_filter_mem)
    from r have "\<not> length (Fields line) < 11 \<and> ParseFloat (Fields line ! 2) = Some (CPU p)"
      by (auto simp: ps_row_def split: if_splits option.splits)
    moreover from l have "line \<in> set (Split output (CHR 0x0A))" by (rule in_set_dropD)
    ultimately show ?thesis using \<open>os \<noteq> ''windows''\<close> by (auto simp: cpu_field_def)
  next
    case win
    from win assms obtain line where l: "line \<in> set (Split output (CHR 0x0A))"
      and r: "tasklist_row ParseFloat line = Some p"
      by (auto simp: parsed_rows_def map_filter_mem)
    from r have "\<not> length (Split line (CHR '','')) < 8 \<and>
        ParseFloat (TrimSuffix (Trim (Split line (CHR '','') ! 7) (CHR 0x22)) '' K'')
        = Some (CPU p)"
      by (auto simp: tasklist_row_def split: if_splits option.splits)
    then show ?thesis using l win by (auto simp: cpu_field_def)
  next
    case other
    then show ?thesis using assms by (simp add: parsed_rows_def)
  qed
qed

lemma ps_example_rows:
  "parsed_rows ParseFloat_decimal ps_example ''linux''
     = [\<lparr>PID = 1, CPU = Fin (1 / 2), Name = ''init''\<rparr>,
        \<lparr>PID = 20, CPU = Fin (25 / 2), Name = ''nginx''\<rparr>,
        \<lparr>PID = 31, CPU = Fin 3, Name = ''postgres''\<rparr>]"
  by code_simp

lemma ps_example_sorted:
  "Slice_insertion cpu_greater
       [\<lparr>PID = 1, CPU = Fin (1 / 2), Name = ''init''\<rparr>,
        \<lparr>PID = 20, CPU = Fin (25 / 2), Name = ''nginx''\<rparr>,
        \<lparr>PID = 31, CPU = Fin 3, Name = ''postgres''\<rparr>]
     = [\<lparr>PID = 20, CPU = Fin (25 / 2), Name = ''nginx''\<rparr>,
        \<lparr>PID = 31, CPU = Fin 3, Name = ''postgres''\<rparr>,
        \<lparr>PID = 1, CPU = Fin (1 / 2), Name = ''init''\<rparr>]"
  by code_simp

lemma ps_example_ranked:
  "parseProcessOutput ParseFloat_decimal Slice_insertion ps_example ''linux''
     = ([\<lparr>PID = 20, CPU = Fin (25 / 2), Name = ''nginx''\<rparr>,
         \<lparr>PID = 31, CPU = Fin 3, Name = ''postgres''\<rparr>,
         \<lparr>PID = 1, CPU = Fin (1 / 2), Name = ''init''\<rparr>], None)"
  unfolding parseProcessOutput_eq ps_example_rows ps_example_sorted by simp

lemma ps_example_fields_nonneg:
  "list_all (\<lambda>line. case cpu_field ''linux'' line of
       None \<Rightarrow> True
     | Some f \<Rightarrow> (case ParseFloat_decimal f of None \<Rightarrow> True | Some v \<Rightarrow> fge v (Fin 0)))
     (Split ps_example (CHR 0x0A))"
  by code_simp

lemma fifteen_processes_no_NaN: "list_all (\<lambda>p. CPU p \<noteq> NaN) (process_loop fifteen_processes)"
  by code_simp

lemma fifteen_processes_ranked:
  "getTopCPUProcesses_gopsutil Slice_insertion (Inr fifteen_processes)
     = ([\<lparr>PID = 9, CPU = Fin 15, Name = ''worker''\<rparr>,
         \<lparr>PID = 2, CPU = Fin 14, Name = ''worker''\<rparr>,
         \<lparr>PID = 11, CPU = Fin 13, Name = ''worker''\<rparr>,
         \<lparr>PID = 4, CPU = Fin 12, Name = ''worker''\<rparr>,
         \<lparr>PID = 13, CPU = Fin 11, Name = ''worker''\<rparr>,
         \<lparr>PID = 6, CPU = Fin 10, Name = ''worker''\<rparr>,
         \<lparr>PID = 15, CPU = Fin 9, Name = ''worker''\<rparr>,
         \<lparr>PID = 8, CPU = Fin 8, Name = ''worker''\<rparr>,
         \<lparr>PID = 1, CPU = Fin 7, Name = ''worker''\<rparr>,
         \<lparr>PID = 10, CPU = Fin 6, Name = ''worker''\<rparr>], None)"
  by code_simp

section \<open>Properties of the ranker\<close>

text \<open>
  C2, as the code has it. Whenever \<^verbatim>\<open>sort.Slice\<close> keeps its documented contract and no
  parsed CPU value is NaN, the list returned by \<^verbatim>\<open>parseProcessOutput\<close>, and likewise
  the list returned by the \<^verbatim>\<open>getTopCPUProcesses\<close> that asks gopsutil, is the first 10
  entries of a permutation of the samples, is sorted by CPU percentage descending, has
  at most 10 entries, and every entry kept is at least as large as every entry cut
  off. Nothing is said of the order among samples of equal CPU percentage.
\<close>

theorem ranking_sorted_truncated:
  assumes c: "sort_Slice_contract Slice"
    and n1: "\<forall>p\<in>set (parsed_rows ParseFloat output os). CPU p \<noteq> NaN"
    and n2: "\<forall>p\<in>set (process_loop ps). CPU p \<noteq> NaN"
  shows "fst (parseProcessOutput ParseFloat Slice output os)
           = take 10 (Slice cpu_greater (parsed_rows ParseFloat output os)) \<and>
         mset (Slice cpu_greater (parsed_rows ParseFloat output os))
           = mset (parsed_rows ParseFloat output os) \<and>
         sorted_wrt (\<lambda>p q. fge (CPU p) (CPU q))
           (fst (parseProcessOutput ParseFloat Slice output os)) \<and>
         length (fst (parseProcessOutput ParseFloat Slice output os)) \<le> 10 \<and>
         (\<forall>p\<in>set (fst (parseProcessOutput ParseFloat Slice output os)).
            \<forall>q\<in>set (drop 10 (Slice cpu_greater (parsed_rows ParseFloat output os))).
              fge (CPU p) (CPU q)) \<and>
         fst (getTopCPUProcesses_gopsutil Slice (Inr ps))
           = take 10 (Slice cpu_greater (process_loop ps)) \<and>
         mset (Slice cpu_greater (process_loop ps)) = mset (process_loop ps) \<and>
         sorted_wrt (\<lambda>p q. fge (CPU p) (CPU q))
           (fst (getTopCPUProcesses_gopsutil Slice (Inr ps))) \<and>
         length (fst (getTopCPUProcesses_gopsutil Slice (Inr ps))) \<le> 10 \<and>
         (\<forall>p\<in>set (fst (getTopCPUProcesses_gopsutil Slice (Inr ps))).
            \<forall>q\<in>set (drop 10 (Slice cpu_greater (process_loop ps))).
              fge (CPU p) (CPU q))"
  unfolding parseProcessOutput_eq getTopCPUProcesses_gopsutil_eq fst_conv
  using ranked_properties[OF c n1] ranked_properties[OF c n2] contract_mset[OF c]
  by simp

theorem ranking_sorted_truncated_witness:
  "sort_Slice_contract (Slice_insertion :: (ProcessInfo \<Rightarrow> ProcessInfo \<Rightarrow> bool) \<Rightarrow> _) \<and>
   fst (parseProcessOutput ParseFloat_decimal Slice_insertion ps_example ''linux'')
     = [\<lparr>PID = 20, CPU = Fin (25 / 2), Name = ''nginx''\<rparr>,
        \<lparr>PID = 31, CPU = Fin 3, Name = ''postgres''\<rparr>,
        \<lparr>PID = 1, CPU = Fin (1 / 2), Name = ''init''\<rparr>] \<and>
   sorted_wrt (\<lambda>p q. fge (CPU p) (CPU q))
     (fst (parseProcessOutput ParseFloat_decimal Slice_insertion ps_example ''linux'')) \<and>
   length (process_loop fifteen_processes) = 15 \<and>
   map PID (fst (getTopCPUProcesses_gopsutil Slice_insertion (Inr fifteen_processes)))
     = [9, 2, 11, 4, 13, 6, 15, 8, 1, 10] \<and>
   map CPU (fst (getTopCPUProcesses_gopsutil Slice_insertion (Inr fifteen_processes)))
     = [Fin 15, Fin 14, Fin 13, Fin 12, Fin 11, Fin 10, Fin 9, Fin 8, Fin 7, Fin 6] \<and>
   sorted_wrt (\<lambda>p q. fge (CPU p) (CPU q))
     (fst (getTopCPUProcesses_gopsutil Slice_insertion (Inr fifteen_processes)))"
proof -
  have n1: "\<forall>p\<in>set (parsed_rows ParseFloat_decimal ps_example ''linux''). CPU p \<noteq> NaN"
    by (simp add: ps_example_rows)
  have n2: "\<forall>p\<in>set (process_loop fifteen_processes). CPU p \<noteq> NaN"
    using fifteen_processes_no_NaN by (simp add: list_all_iff)
  from ranking_sorted_truncated[OF Slice_insertion_contract n1 n2]
  have s: "sorted_wrt (\<lambda>p q. fge (CPU p) (CPU q))
      (fst (parseProcessOutput ParseFloat_decimal Slice_insertion ps_example ''linux''))"
    and s': "sorted_wrt (\<lambda>p q. fge (CPU p) (CPU q))
      (fst (getTopCPUProcesses_gopsutil Slice_insertion (Inr fifteen_processes)))"
    by blast+
  have a: "fst (parseProcessOutput ParseFloat_decimal Slice_insertion ps_example ''linux'')
     = [\<lparr>PID = 20, CPU = Fin (25 / 2), Name = ''nginx''\<rparr>,
        \<lparr>PID = 31, CPU = Fin 3, Name = ''postgres''\<rparr>,
        \<lparr>PID = 1, CPU = Fin (1 / 2), Name = ''init''\<rparr>]"
    by (simp add: ps_example_ranked)
  have b: "length (process_loop fifteen_processes) = 15"
    by code_simp
  have c: "map PID (fst (getTopCPUProcesses_gopsutil Slice_insertion (Inr fifteen_processes)))
     = [9, 2, 11, 4, 13, 6, 15, 8, 1, 10]"
    and d: "map CPU (fst (getTopCPUProcesses_gopsutil Slice_insertion (Inr fifteen_processes)))
     = [Fin 15, Fin 14, Fin 13, Fin 12, Fin 11, Fin 10, Fin 9, Fin 8, Fin 7, Fin 6]"
    by (simp_all add: fifteen_processes_ranked)
  show ?thesis using Slice_insertion_contract a s s' b c d by blast
qed

text \<open>
  C2 as stated fails twice over. Thirteen processes, the first twelve at 1 percent in
  the order of their PIDs and the last at 2 percent: the sort of Go 1.19 and later
  returns PID 7 before PID 3 and PID 1 after PID 6, so ties do not keep the order of
  enumeration. And a text whose second row has the CPU value \<^verbatim>\<open>NaN\<close>: the list comes
  back as it was read, 1 before NaN before 2, which is not descending.
\<close>

theorem ranking_sorted_truncated_counterexample:
  "getTopCPUProcesses_gopsutil sort_Slice
     (Inr [(1, Inr (Fin 1), Inr ''a''), (2, Inr (Fin 1), Inr ''b''),
           (3, Inr (Fin 1), Inr ''c''), (4, Inr (Fin 1), Inr ''d''),
           (5, Inr (Fin 1), Inr ''e''), (6, Inr (Fin 1), Inr ''f''),
           (7, Inr (Fin 1), Inr ''g''), (8, Inr (Fin 1), Inr ''h''),
           (9, Inr (Fin 1), Inr ''i''), (10, Inr (Fin 1), Inr ''j''),
           (11, Inr (Fin 1), Inr ''k''), (12, Inr (Fin 1), Inr ''l''),
           (13, Inr (Fin 2), Inr ''m'')])
   = ([\<lparr>PID = 13, CPU = Fin 2, Name = ''m''\<rparr>, \<lparr>PID = 7, CPU = Fin 1, Name = ''g''\<rparr>,
       \<lparr>PID = 3, CPU = Fin 1, Name = ''c''\<rparr>, \<lparr>PID = 4, CPU = Fin 1, Name = ''d''\<rparr>,
       \<lparr>PID = 5, CPU = Fin 1, Name = ''e''\<rparr>, \<lparr>PID = 6, CPU = Fin 1, Name = ''f''\<rparr>,
       \<lparr>PID = 1, CPU = Fin 1, Name = ''a''\<rparr>, \<lparr>PID = 8, CPU = Fin 1, Name = ''h''\<rparr>,
       \<lparr>PID = 9, CPU = Fin 1, Name = ''i''\<rparr>, \<lparr>PID = 10, CPU = Fin 1, Name = ''j''\<rparr>],
      None) \<and>
   parseProcessOutput ParseFloat_decimal sort_Slice
     (''USER PID %CPU %MEM VSZ RSS TTY STAT START TIME COMMAND'' @ [CHR 0x0A] @
      ''root 1 1.0 0.1 1000 500 ? Ss 10:00 0:01 init'' @ [CHR 0x0A] @
      ''root 2 NaN 0.1 1000 500 ? Ss 10:00 0:01 kthreadd'' @ [CHR 0x0A] @
      ''root 3 2.0 0.1 1000 500 ? Ss 10:00 0:01 sshd'') ''linux''
   = ([\<lparr>PID = 1, CPU = Fin 1, Name = ''init''\<rparr>,
       \<lparr>PID = 2, CPU = NaN, Name = ''kthreadd''\<rparr>,
       \<lparr>PID = 3, CPU = Fin 2, Name = ''sshd''\<rparr>], None)"
  by code_simp

text \<open>
  C7, as the code has it. Whenever \<^verbatim>\<open>sort.Slice\<close> keeps its contract and fewer than 10
  rows parse, \<^verbatim>\<open>parseProcessOutput\<close> returns no error and all the parsed samples, no
  more and no fewer; they are sorted by CPU percentage descending when none of their
  CPU values is NaN.
\<close>

theorem few_processes_all_returned:
  assumes c: "sort_Slice_contract Slice"
    and few: "length (parsed_rows ParseFloat output os) < 10"
  shows "snd (parseProcessOutput ParseFloat Slice output os) = None \<and>
         mset (fst (parseProcessOutput ParseFloat Slice output os))
           = mset (parsed_rows ParseFloat output os) \<and>
         length (fst (parseProcessOutput ParseFloat Slice output os))
           = length (parsed_rows ParseFloat output os) \<and>
         ((\<forall>p\<in>set (parsed_rows ParseFloat output os). CPU p \<noteq> NaN) \<longrightarrow>
            sorted_wrt (\<lambda>p q. fge (CPU p) (CPU q))
              (fst (parseProcessOutput ParseFloat Slice output os)))"
  unfolding parseProcessOutput_eq fst_conv snd_conv
  using few contract_length[OF c, of cpu_greater "parsed_rows ParseFloat output os"]
    contract_mset[OF c, of cpu_greater "parsed_rows ParseFloat output os"]
    contract_sorted[OF c, of "parsed_rows ParseFloat output os"]
  by simp

theorem few_processes_all_returned_witness:
  "length (parsed_rows ParseFloat_decimal ps_example ''linux'') = 3 \<and>
   mset (fst (parseProcessOutput ParseFloat_decimal Slice_insertion ps_example ''linux''))
     = mset (parsed_rows ParseFloat_decimal ps_example ''linux'') \<and>
   sorted_wrt (\<lambda>p q. fge (CPU p) (CPU q))
     (fst (parseProcessOutput ParseFloat_decimal Slice_insertion ps_example ''linux''))"
proof -
  have few: "length (parsed_rows ParseFloat_decimal ps_example ''linux'') < 10"
    and n: "\<forall>p\<in>set (parsed_rows ParseFloat_decimal ps_example ''linux''). CPU p \<noteq> NaN"
    by (simp_all add: ps_example_rows)
  from few_processes_all_returned[OF Slice_insertion_contract few] n
  have "mset (fst (parseProcessOutput ParseFloat_decimal Slice_insertion ps_example ''linux''))
     = mset (parsed_rows ParseFloat_decimal ps_example ''linux'')"
    and "sorted_wrt (\<lambda>p q. fge (CPU p) (CPU q))
     (fst (parseProcessOutput ParseFloat_decimal Slice_insertion ps_example ''linux''))"
    by blast+
  then show ?thesis by (simp add: ps_example_rows)
qed

text \<open>
  C7 as stated fails: three rows parse, the second with the CPU value \<^verbatim>\<open>nan\<close>, and
  the three samples come back in the order 0.5, NaN, 12.5, which is not descending.
\<close>

theorem few_processes_all_returned_counterexample:
  "parseProcessOutput ParseFloat_decimal sort_Slice
     (''USER PID %CPU %MEM VSZ RSS TTY STAT START TIME COMMAND'' @ [CHR 0x0A] @
      ''root 1 0.5 0.1 1000 500 ? Ss 10:00 0:01 init'' @ [CHR 0x0A] @
      ''root 2 nan 0.0 0 0 ? S 10:00 0:00 kworker'' @ [CHR 0x0A] @
      ''www 20 12.5 1.0 2000 900 ? S 10:01 0:09 nginx'' @ [CHR 0x0A]) ''linux''
   = ([\<lparr>PID = 1, CPU = Fin (1 / 2), Name = ''init''\<rparr>,
       \<lparr>PID = 2, CPU = NaN, Name = ''kworker''\<rparr>,
       \<lparr>PID = 20, CPU = Fin (25 / 2), Name = ''nginx''\<rparr>], None)"
  by code_simp

text \<open>
  C6: \<^verbatim>\<open>parseProcessOutput\<close> returns no error whatever the rows are, and its list is
  the first 10 entries of the sorted list of the samples of exactly the rows that
  parse (\<open>parsed_rows\<close>: a row with too few fields, a CPU text or a PID text that is
  no number gives no sample). Every sample returned is one of those, and when at most
  10 rows parse the list returned holds exactly those samples.
\<close>

theorem malformed_rows_skipped:
  assumes c: "sort_Slice_contract Slice"
  shows "snd (parseProcessOutput ParseFloat Slice output os) = None \<and>
         fst (parseProcessOutput ParseFloat Slice output os)
           = take 10 (Slice cpu_greater (parsed_rows ParseFloat output os)) \<and>
         mset (Slice cpu_greater (parsed_rows ParseFloat output os))
           = mset (parsed_rows ParseFloat output os) \<and>
         set (fst (parseProcessOutput ParseFloat Slice output os))
           \<subseteq> set (parsed_rows ParseFloat output os) \<and>
         (length (parsed_rows ParseFloat output os) \<le> 10 \<longrightarrow>
            mset (fst (parseProcessOutput ParseFloat Slice output os))
              = mset (parsed_rows ParseFloat output os))"
  unfolding parseProcessOutput_eq fst_conv snd_conv
  using contract_length[OF c, of cpu_greater "parsed_rows ParseFloat output os"]
    contract_mset[OF c, of cpu_greater "parsed_rows ParseFloat output os"]
    contract_set[OF c, of cpu_greater "parsed_rows ParseFloat output os"]
    set_take_subset[of 10 "Slice cpu_greater (parsed_rows ParseFloat output os)"]
  by auto

theorem malformed_rows_skipped_witness:
  "parsed_rows ParseFloat_decimal ps_example ''linux''
     = [\<lparr>PID = 1, CPU = Fin (1 / 2), Name = ''init''\<rparr>,
        \<lparr>PID = 20, CPU = Fin (25 / 2), Name = ''nginx''\<rparr>,
        \<lparr>PID = 31, CPU = Fin 3, Name = ''postgres''\<rparr>] \<and>
   snd (parseProcessOutput ParseFloat_decimal Slice_insertion ps_example ''linux'') = None \<and>
   mset (fst (parseProcessOutput ParseFloat_decimal Slice_insertion ps_example ''linux''))
     = mset (parsed_rows ParseFloat_decimal ps_example ''linux'')"
proof -
  note r = ps_example_rows
  from malformed_rows_skipped[OF Slice_insertion_contract, of ParseFloat_decimal ps_example
      "''linux''"]
  have s: "snd (parseProcessOutput ParseFloat_decimal Slice_insertion ps_example ''linux'')
      = None"
    and m: "length (parsed_rows ParseFloat_decimal ps_example ''linux'') \<le> 10 \<longrightarrow>
      mset (fst (parseProcessOutput ParseFloat_decimal Slice_insertion ps_example ''linux''))
        = mset (parsed_rows ParseFloat_decimal ps_example ''linux'')"
    by blast+
  have "length (parsed_rows ParseFloat_decimal ps_example ''linux'') \<le> 10"
    by (simp add: r)
  with m have "mset (fst (parseProcessOutput ParseFloat_decimal Slice_insertion ps_example
      ''linux'')) = mset (parsed_rows ParseFloat_decimal ps_example ''linux'')"
    by blast
  with r s show ?thesis by blast
qed

text \<open>
  C9, as the code has it. The CPU value of every sample that \<^verbatim>\<open>parseProcessOutput\<close>
  returns is the number that \<open>ParseFloat\<close> gave for the CPU field of one of the rows;
  no sign is tested. So the values returned are non-negative whenever the numbers read
  from the CPU fields of the text are.
\<close>

theorem cpu_is_the_parsed_value:
  assumes c: "sort_Slice_contract Slice"
  shows "(\<forall>p\<in>set (fst (parseProcessOutput ParseFloat Slice output os)).
            \<exists>line\<in>set (Split output (CHR 0x0A)). \<exists>f.
              cpu_field os line = Some f \<and> ParseFloat f = Some (CPU p)) \<and>
         ((\<forall>line\<in>set (Split output (CHR 0x0A)). \<forall>f v.
              cpu_field os line = Some f \<and> ParseFloat f = Some v \<longrightarrow> fge v (Fin 0)) \<longrightarrow>
          (\<forall>p\<in>set (fst (parseProcessOutput ParseFloat Slice output os)).
              fge (CPU p) (Fin 0)))"
proof -
  have sub: "set (fst (parseProcessOutput ParseFloat Slice output os))
      \<subseteq> set (parsed_rows ParseFloat output os)"
    unfolding parseProcessOutput_eq fst_conv
    using contract_set[OF c, of cpu_greater "parsed_rows ParseFloat output os"]
      set_take_subset[of 10 "Slice cpu_greater (parsed_rows ParseFloat output os)"]
    by auto
  have 1: "\<forall>p\<in>set (fst (parseProcessOutput ParseFloat Slice output os)).
            \<exists>line\<in>set (Split output (CHR 0x0A)). \<exists>f.
              cpu_field os line = Some f \<and> ParseFloat f = Some (CPU p)"
    using sub parsed_rows_cpu by blast
  then show ?thesis by blast
qed

theorem cpu_is_the_parsed_value_witness:
  "list_all (\<lambda>p. fge (CPU p) (Fin 0))
     (fst (parseProcessOutput ParseFloat_decimal Slice_insertion ps_example ''linux'')) \<and>
   fst (parseProcessOutput ParseFloat_decimal Slice_insertion ps_example ''linux'') \<noteq> []"
proof -
  have h: "\<forall>line\<in>set (Split ps_example (CHR 0x0A)). \<forall>f v.
      cpu_field ''linux'' line = Some f \<and> ParseFloat_decimal f = Some v \<longrightarrow> fge v (Fin 0)"
    using ps_example_fields_nonneg unfolding list_all_iff by fastforce
  from cpu_is_the_parsed_value[OF Slice_insertion_contract, of ParseFloat_decimal ps_example
      "''linux''"] h
  have "\<forall>p\<in>set (fst (parseProcessOutput ParseFloat_decimal Slice_insertion ps_example
      ''linux'')). fge (CPU p) (Fin 0)"
    by blast
  then show ?thesis by (simp add: list_all_iff ps_example_ranked)
qed

text \<open>
  C9 as stated fails: a row whose CPU field is \<^verbatim>\<open>-0.5\<close> gives a sample with the CPU
  value \<open>-0.5\<close>.
\<close>

theorem cpu_is_the_parsed_value_counterexample:
  "parseProcessOutput ParseFloat_decimal sort_Slice
     (''USER PID %CPU %MEM VSZ RSS TTY STAT START TIME COMMAND'' @ [CHR 0x0A] @
      ''root 1 -0.5 0.1 1000 500 ? Ss 10:00 0:01 init'' @ [CHR 0x0A]) ''linux''
   = ([\<lparr>PID = 1, CPU = Fin (- (1 / 2)), Name = ''init''\<rparr>], None)"
  by code_simp



end
